theory Spec2Isabelle
  imports Complex_Main
begin

section \<open>Exact job-shop scheduling model (\<open>src/schedule_generator/exact_solution.py\<close>)\<close>

subsection \<open>Problem view\<close>

text \<open>
  The classes \<open>Job\<close> and \<open>JobShopProblem\<close> are imported by the source file from
  \<open>src.schedule_generator.main\<close>; only the attributes read by \<open>exact_solution.py\<close> are
  kept. \<open>available_machines\<close> is a dict from machine id to duration, \<open>dependencies\<close> a
  collection of job indices, \<open>setup_times\<close> a matrix read as \<open>setup_times[a][b]\<close>.
  Of \<open>machines\<close> only the length is read.
\<close>

record Job =
  available_machines :: "nat \<rightharpoonup> real"
  dependencies :: "nat list"
  days_till_delivery :: real

record JobShopProblem =
  jobs :: "Job list"
  machines :: "nat list"
  setup_times :: "real list list"

datatype error =
    ValueError string
  | IndexError
  | KeyError
  | TypeError
  | Exception string

subsection \<open>Expressions and constraints of the modelling layer\<close>

text \<open>
  The four indexed variable components of the model: \<open>model.t[j]\<close>, \<open>model.alpha[j, m]\<close>,
  \<open>model.beta[j1, j2]\<close> and \<open>model.tardiness[j]\<close>.
\<close>

datatype var =
    var_t nat
  | var_alpha nat nat
  | var_beta nat nat
  | var_tardiness nat

datatype domain = NonNegativeReals | Binary

datatype expr =
    Num real
  | Ref var
  | Add expr expr
  | Sub expr expr
  | Mul expr expr
  | Quicksum "expr list"

datatype constraint = Ge expr expr | Eq expr expr

text \<open>
  What a constraint rule may hand back: \<open>Constraint.Skip\<close>, a relational expression,
  or, when both sides of the comparison are plain Python numbers, a Python \<open>bool\<close>.
\<close>

datatype rule_result = Skip | Relational constraint | Boolean bool

text \<open>
  \<open>pyo.quicksum\<close> over an empty generator returns its start value, the number \<open>0\<close>;
  over at least one term it returns a sum expression.
\<close>

fun quicksum :: "expr list \<Rightarrow> expr" where
  "quicksum [] = Num 0"
| "quicksum (x # xs) = Quicksum (x # xs)"

text \<open>
  Python's \<open>==\<close> and \<open>>=\<close>: on two plain numbers the comparison is evaluated on the
  spot; as soon as one side holds a model variable it builds a relational expression.
\<close>

fun py_eq :: "expr \<Rightarrow> expr \<Rightarrow> rule_result" where
  "py_eq (Num x) (Num y) = Boolean (x = y)"
| "py_eq a b = Relational (Eq a b)"

fun py_ge :: "expr \<Rightarrow> expr \<Rightarrow> rule_result" where
  "py_ge (Num x) (Num y) = Boolean (x \<ge> y)"
| "py_ge a b = Relational (Ge a b)"

text \<open>The meaning of an expression and of a constraint under a variable assignment.\<close>

fun eval :: "(var \<Rightarrow> real) \<Rightarrow> expr \<Rightarrow> real" where
  "eval \<sigma> (Num c) = c"
| "eval \<sigma> (Ref v) = \<sigma> v"
| "eval \<sigma> (Add a b) = eval \<sigma> a + eval \<sigma> b"
| "eval \<sigma> (Sub a b) = eval \<sigma> a - eval \<sigma> b"
| "eval \<sigma> (Mul a b) = eval \<sigma> a * eval \<sigma> b"
| "eval \<sigma> (Quicksum es) = sum_list (map (eval \<sigma>) es)"

fun holds :: "(var \<Rightarrow> real) \<Rightarrow> constraint \<Rightarrow> bool" where
  "holds \<sigma> (Ge a b) = (eval \<sigma> a \<ge> eval \<sigma> b)"
| "holds \<sigma> (Eq a b) = (eval \<sigma> a = eval \<sigma> b)"

fun in_domain :: "domain \<Rightarrow> real \<Rightarrow> bool" where
  "in_domain NonNegativeReals x = (0 \<le> x)"
| "in_domain Binary x = (x = 0 \<or> x = 1)"

text \<open>
  \<open>pyo.Constraint(index_set, rule=rule)\<close> on a concrete model calls the rule at every
  index in order. \<open>Skip\<close> stores nothing, a relational expression is stored under the
  index, and a plain \<open>bool\<close> is refused with a \<open>ValueError\<close> (``the constraint expression
  resolved to a trivial Boolean''). An exception raised inside the rule propagates.
\<close>

definition trivial_boolean :: error where
  "trivial_boolean = ValueError ''Invalid constraint expression. The constraint expression resolved to a trivial Boolean''"

fun Constraint :: "'i list \<Rightarrow> ('i \<Rightarrow> error + rule_result) \<Rightarrow> error + ('i \<times> constraint) list" where
  "Constraint [] rule = Inr []"
| "Constraint (i # is) rule =
     (case rule i of
        Inl e \<Rightarrow> Inl e
      | Inr Skip \<Rightarrow> Constraint is rule
      | Inr (Boolean b) \<Rightarrow> Inl trivial_boolean
      | Inr (Relational c) \<Rightarrow>
          (case Constraint is rule of
             Inl e \<Rightarrow> Inl e
           | Inr cs \<Rightarrow> Inr ((i, c) # cs)))"

subsection \<open>The model\<close>

text \<open>
  A \<open>ConcreteModel\<close> as this file builds it: the two index sets (ordered, without
  duplicates), the current value of every variable (\<open>None\<close> while unset), the objective
  and the six indexed constraint components. The variable components are declared over
  the index sets, so their domains are a function of the model (\<open>var_domain\<close> below).
\<close>

record model =
  model_jobs :: "nat list"
  model_machines :: "nat list"
  "value" :: "var \<rightharpoonup> real"
  objective :: expr
  con_calculate_tardiness :: "(nat \<times> constraint) list"
  con_one_machine_per_job :: "(nat \<times> constraint) list"
  con_alpha_zero_if_not_available :: "((nat \<times> nat) \<times> constraint) list"
  con_precedence_order :: "((nat \<times> nat) \<times> constraint) list"
  con_no_overlapping_1 :: "((nat \<times> nat \<times> nat) \<times> constraint) list"
  con_no_overlapping_2 :: "((nat \<times> nat \<times> nat) \<times> constraint) list"

definition H :: real where
  "H = 10000"

text \<open>\<open>setup_times[a][b]\<close>: both subscripts fail out of range.\<close>

definition setup_time :: "JobShopProblem \<Rightarrow> nat \<Rightarrow> nat \<Rightarrow> error + real" where
  "setup_time jssp a b =
     (if a < length (setup_times jssp) then
        (if b < length (setup_times jssp ! a) then Inr (setup_times jssp ! a ! b)
         else Inl IndexError)
      else Inl IndexError)"

text \<open>\<open>d.get(machine, 0)\<close> on the duration dict.\<close>

definition get_duration :: "Job \<Rightarrow> nat \<Rightarrow> real" where
  "get_duration job machine =
     (case available_machines job machine of Some d \<Rightarrow> d | None \<Rightarrow> 0)"

text \<open>
  The generator shared by three rules:
  \<open>m.alpha[j, machine] * jssp.jobs[j].available_machines.get(machine, 0)
     for machine in m.machines if machine in jssp.jobs[j].available_machines\<close>.
\<close>

definition duration_terms :: "JobShopProblem \<Rightarrow> nat list \<Rightarrow> nat \<Rightarrow> expr list" where
  "duration_terms jssp ms j =
     map (\<lambda>machine. Mul (Ref (var_alpha j machine)) (Num (get_duration (jobs jssp ! j) machine)))
       (filter (\<lambda>machine. available_machines (jobs jssp ! j) machine \<noteq> None) ms)"

definition calculate_tardiness :: "JobShopProblem \<Rightarrow> nat list \<Rightarrow> nat \<Rightarrow> error + rule_result" where
  "calculate_tardiness jssp ms j =
     Inr (py_ge (Ref (var_tardiness j))
       (Sub (Add (Ref (var_t j)) (quicksum (duration_terms jssp ms j)))
            (Num (days_till_delivery (jobs jssp ! j) * 24 * 60))))"

definition one_machine_per_job :: "JobShopProblem \<Rightarrow> nat list \<Rightarrow> nat \<Rightarrow> error + rule_result" where
  "one_machine_per_job jssp ms j =
     Inr (py_eq
       (quicksum (map (\<lambda>machine. Ref (var_alpha j machine))
          (filter (\<lambda>machine. available_machines (jobs jssp ! j) machine \<noteq> None) ms)))
       (Num 1))"

definition alpha_zero_if_not_available :: "JobShopProblem \<Rightarrow> nat \<times> nat \<Rightarrow> error + rule_result" where
  "alpha_zero_if_not_available jssp = (\<lambda>(j, machine).
     if available_machines (jobs jssp ! j) machine = None
     then Inr (py_eq (Ref (var_alpha j machine)) (Num 0))
     else Inr Skip)"

definition precedence_order :: "JobShopProblem \<Rightarrow> nat list \<Rightarrow> nat \<times> nat \<Rightarrow> error + rule_result" where
  "precedence_order jssp ms = (\<lambda>(j1, j2).
     if length (dependencies (jobs jssp ! j1)) > 0 \<and> j2 \<in> set (dependencies (jobs jssp ! j1))
     then Inr (py_ge (Ref (var_t j1))
                 (Add (Ref (var_t j2)) (quicksum (duration_terms jssp ms j2))))
     else Inr Skip)"

definition no_overlapping_1 :: "JobShopProblem \<Rightarrow> nat \<times> nat \<times> nat \<Rightarrow> error + rule_result" where
  "no_overlapping_1 jssp = (\<lambda>(j1, j2, machine).
     if j1 = j2 \<or> available_machines (jobs jssp ! j1) machine = None
               \<or> available_machines (jobs jssp ! j2) machine = None
     then Inr Skip
     else (case available_machines (jobs jssp ! j2) machine of
             None \<Rightarrow> Inl KeyError
           | Some d \<Rightarrow>
              (case setup_time jssp j2 j1 of
                 Inl e \<Rightarrow> Inl e
               | Inr s \<Rightarrow>
                  Inr (py_ge (Ref (var_t j1))
                    (Sub (Add (Add (Ref (var_t j2)) (Num d)) (Num s))
                         (Mul (Add (Sub (Sub (Num 2) (Ref (var_alpha j1 machine)))
                                        (Ref (var_alpha j2 machine)))
                                   (Ref (var_beta j1 j2)))
                              (Num H)))))))"

definition no_overlapping_2 :: "JobShopProblem \<Rightarrow> nat \<times> nat \<times> nat \<Rightarrow> error + rule_result" where
  "no_overlapping_2 jssp = (\<lambda>(j1, j2, machine).
     if j1 = j2 \<or> available_machines (jobs jssp ! j1) machine = None
               \<or> available_machines (jobs jssp ! j2) machine = None
     then Inr Skip
     else (case available_machines (jobs jssp ! j1) machine of
             None \<Rightarrow> Inl KeyError
           | Some d \<Rightarrow>
              (case setup_time jssp j1 j2 of
                 Inl e \<Rightarrow> Inl e
               | Inr s \<Rightarrow>
                  Inr (py_ge (Ref (var_t j2))
                    (Sub (Add (Add (Ref (var_t j1)) (Num d)) (Num s))
                         (Mul (Sub (Sub (Sub (Num 3) (Ref (var_alpha j1 machine)))
                                        (Ref (var_alpha j2 machine)))
                                   (Ref (var_beta j1 j2)))
                              (Num H)))))))"

text \<open>
  The variable declarations: \<open>t\<close> and \<open>tardiness\<close> over the jobs with domain
  \<open>NonNegativeReals\<close>, \<open>alpha\<close> over jobs times machines and \<open>beta\<close> over jobs times jobs
  with domain \<open>Binary\<close>; only \<open>alpha\<close> is initialised (to 0).
\<close>

definition var_domain :: "model \<Rightarrow> var \<rightharpoonup> domain" where
  "var_domain M v =
     (case v of
        var_t j \<Rightarrow> if j \<in> set (model_jobs M) then Some NonNegativeReals else None
      | var_alpha j m \<Rightarrow>
          if j \<in> set (model_jobs M) \<and> m \<in> set (model_machines M) then Some Binary else None
      | var_beta j1 j2 \<Rightarrow>
          if j1 \<in> set (model_jobs M) \<and> j2 \<in> set (model_jobs M) then Some Binary else None
      | var_tardiness j \<Rightarrow> if j \<in> set (model_jobs M) then Some NonNegativeReals else None)"

definition initial_value :: "nat list \<Rightarrow> nat list \<Rightarrow> var \<rightharpoonup> real" where
  "initial_value js ms v =
     (case v of
        var_alpha j m \<Rightarrow> if j \<in> set js \<and> m \<in> set ms then Some 0 else None
      | _ \<Rightarrow> None)"

definition generate_model :: "JobShopProblem \<Rightarrow> error + model" where
  "generate_model jssp =
     (let js = [0..<length (jobs jssp)];
          ms = [0..<length (machines jssp)]
      in case Constraint js (calculate_tardiness jssp ms) of Inl e \<Rightarrow> Inl e | Inr c_tard \<Rightarrow>
         (case Constraint js (one_machine_per_job jssp ms) of Inl e \<Rightarrow> Inl e | Inr c_one \<Rightarrow>
         (case Constraint (List.product js ms) (alpha_zero_if_not_available jssp) of Inl e \<Rightarrow> Inl e | Inr c_zero \<Rightarrow>
         (case Constraint (List.product js js) (precedence_order jssp ms) of Inl e \<Rightarrow> Inl e | Inr c_prec \<Rightarrow>
         (case Constraint (List.product js (List.product js ms)) (no_overlapping_1 jssp) of Inl e \<Rightarrow> Inl e | Inr c_no1 \<Rightarrow>
         (case Constraint (List.product js (List.product js ms)) (no_overlapping_2 jssp) of Inl e \<Rightarrow> Inl e | Inr c_no2 \<Rightarrow>
            Inr \<lparr> model_jobs = js,
                  model_machines = ms,
                  value = initial_value js ms,
                  objective = quicksum (map (\<lambda>j. Ref (var_tardiness j)) js),
                  con_calculate_tardiness = c_tard,
                  con_one_machine_per_job = c_one,
                  con_alpha_zero_if_not_available = c_zero,
                  con_precedence_order = c_prec,
                  con_no_overlapping_1 = c_no1,
                  con_no_overlapping_2 = c_no2 \<rparr>))))))"


subsection \<open>Solving\<close>

text \<open>
  \<open>SolverStatus\<close> and \<open>TerminationCondition\<close> are the modelling library's enumerations
  (\<open>unknown\<close> and \<open>error\<close> occur in both and carry a prefix here).
\<close>

datatype SolverStatus = ok | warning | status_error | aborted | status_unknown

datatype TerminationCondition =
    tc_unknown | maxTimeLimit | maxIterations | minFunctionValue | minStepLength
  | globallyOptimal | locallyOptimal | feasible | optimal | maxEvaluations | other
  | unbounded | infeasible | infeasibleOrUnbounded | invalidProblem
  | intermediateNonInteger | noSolution | solverFailure | internalSolverError
  | tc_error | userInterrupt | resourceInterrupt | licensingProblems

record solver_results =
  status :: SolverStatus
  termination_condition :: TerminationCondition

text \<open>
  The external solver is a parameter: \<open>solver.solve(model)\<close> hands back the results
  object and leaves the values it found in the variables of the model it was given.
\<close>

type_synonym solver = "model \<Rightarrow> solver_results \<times> (var \<rightharpoonup> real)"

text \<open>What the program prints.\<close>

datatype message =
    Text string
  | Start_time_mismatch int nat "real option" real

text \<open>\<open>solve_model\<close>: the printed lines, then the exception raised or the model returned.\<close>

definition solve_model :: "solver \<Rightarrow> model \<Rightarrow> message list \<times> (error + model)" where
  "solve_model solver m =
     (let (res, vals) = solver m;
          m' = m\<lparr>value := vals\<rparr>
      in if status res \<noteq> ok
         then ([Text ''Check solver not ok...''], Inl (Exception ''Solver not ok''))
         else if termination_condition res \<noteq> optimal
         then ([Text ''Could not find optimal solution, probably infeasible...''],
               Inl (Exception ''Infeasible solution''))
         else ([], Inr m'))"

subsection \<open>Schedule extraction\<close>

text \<open>
  The state of the two loops of \<open>get_schedule\<close>: the \<open>job_order\<close> array (one row per
  machine, one column per job, filled with \<open>-2\<close>), the dict \<open>jobs_assigned_on_machine\<close>
  and the lines printed so far.
\<close>

record extraction =
  job_order :: "int list list"
  jobs_assigned_on_machine :: "nat \<rightharpoonup> nat"
  printed :: "message list"

text \<open>\<open>job_order[r, c] = v\<close> on the array: an index out of range raises.\<close>

definition set_slot :: "int list list \<Rightarrow> nat \<Rightarrow> nat \<Rightarrow> int \<Rightarrow> error + int list list" where
  "set_slot a r c v =
     (if r < length a \<and> c < length (a ! r) then Inr (a[r := (a ! r)[c := v]])
      else Inl IndexError)"

definition multiple_machines :: message where
  "multiple_machines = Text ''Error: Multiple machines assigned to job''"

text \<open>The inner loop \<open>for m in model.machines\<close> for one job \<open>j\<close>, with the flag \<open>found\<close>.\<close>

fun get_schedule_machines ::
  "model \<Rightarrow> nat \<Rightarrow> nat list \<Rightarrow> bool \<Rightarrow> extraction \<Rightarrow> error + extraction" where
  "get_schedule_machines M j [] found s = Inr s"
| "get_schedule_machines M j (m # ms) found s =
     (if value M (var_alpha j m) = Some 1 \<and> \<not> found then
        (case jobs_assigned_on_machine s m of
           None \<Rightarrow> Inl KeyError
         | Some c \<Rightarrow>
            (case set_slot (job_order s) m c (int j) of
               Inl e \<Rightarrow> Inl e
             | Inr a \<Rightarrow>
                 get_schedule_machines M j ms True
                   (s\<lparr>job_order := a,
                      jobs_assigned_on_machine := (jobs_assigned_on_machine s)(m \<mapsto> c + 1)\<rparr>)))
      else if found \<and> value M (var_alpha j m) = Some 1 then
        get_schedule_machines M j ms found (s\<lparr>printed := printed s @ [multiple_machines]\<rparr>)
      else get_schedule_machines M j ms found s)"

text \<open>The outer loop over the sorted jobs.\<close>

fun get_schedule_jobs :: "model \<Rightarrow> nat list \<Rightarrow> extraction \<Rightarrow> error + extraction" where
  "get_schedule_jobs M [] s = Inr s"
| "get_schedule_jobs M (j # js) s =
     (case get_schedule_machines M j (model_machines M) False s of
        Inl e \<Rightarrow> Inl e
      | Inr s' \<Rightarrow> get_schedule_jobs M js s')"

text \<open>
  \<open>job_start_times = {j: model.t[j].value for j in model.jobs}\<close> and
  \<open>sorted(job_start_times, key=job_start_times.get)\<close>: a stable sort of the jobs by start
  time. Ordering an unset value (\<open>None\<close>) against anything raises \<open>TypeError\<close>, which
  happens as soon as two keys are compared, that is with at least two jobs.
\<close>

definition job_start_time :: "model \<Rightarrow> nat \<Rightarrow> real" where
  "job_start_time M j = (case value M (var_t j) of Some x \<Rightarrow> x | None \<Rightarrow> 0)"

definition sorted_jobs :: "model \<Rightarrow> error + nat list" where
  "sorted_jobs M =
     (if 2 \<le> length (model_jobs M) \<and> (\<exists>j \<in> set (model_jobs M). value M (var_t j) = None)
      then Inl TypeError
      else Inr (sort_key (job_start_time M) (model_jobs M)))"

definition initial_extraction :: "model \<Rightarrow> extraction" where
  "initial_extraction M =
     \<lparr> job_order = replicate (length (model_machines M)) (replicate (length (model_jobs M)) (- 2)),
       jobs_assigned_on_machine = (\<lambda>m. if m \<in> set (model_machines M) then Some 0 else None),
       printed = [] \<rparr>"

text \<open>\<open>get_schedule\<close>: the printed lines and the returned \<open>job_order\<close> array.\<close>

definition get_schedule :: "model \<Rightarrow> error + (message list \<times> int list list)" where
  "get_schedule M =
     (case sorted_jobs M of
        Inl e \<Rightarrow> Inl e
      | Inr js \<Rightarrow>
         (case get_schedule_jobs M js (initial_extraction M) of
            Inl e \<Rightarrow> Inl e
          | Inr s \<Rightarrow> Inr (printed s, job_order s)))"

subsection \<open>Schedule validation\<close>

text \<open>
  A schedule (\<open>schedule_type\<close>) is a dict from machine to a list of
  \<open>(job_idx, start_time, end_time)\<close> triples, walked in the order of its items.
  \<open>model.t[job_idx]\<close> raises \<open>KeyError\<close> for an index outside \<open>model.jobs\<close>. The inner
  loop gives the line it printed when it returned \<open>False\<close>, and nothing when it ran
  to its end.
\<close>

type_synonym schedule_type = "(nat \<times> (int \<times> real \<times> real) list) list"

fun validate_schedule_jobs ::
  "model \<Rightarrow> nat \<Rightarrow> (int \<times> real \<times> real) list \<Rightarrow> error + message option" where
  "validate_schedule_jobs M machine [] = Inr None"
| "validate_schedule_jobs M machine ((job_idx, start_time, end_time) # rest) =
     (if job_idx = - 1 \<or> job_idx = - 2 then validate_schedule_jobs M machine rest
      else if job_idx < 0 \<or> nat job_idx \<notin> set (model_jobs M) then Inl KeyError
      else if value M (var_t (nat job_idx)) \<noteq> Some start_time
      then Inr (Some (Start_time_mismatch job_idx machine (value M (var_t (nat job_idx))) start_time))
      else validate_schedule_jobs M machine rest)"

text \<open>\<open>validate_schedule\<close>: the printed lines and the returned verdict.\<close>

fun validate_schedule :: "model \<Rightarrow> schedule_type \<Rightarrow> error + (message list \<times> bool)" where
  "validate_schedule M [] = Inr ([], True)"
| "validate_schedule M ((machine, job_list) # rest) =
     (case validate_schedule_jobs M machine job_list of
        Inl e \<Rightarrow> Inl e
      | Inr (Some line) \<Rightarrow> Inr ([line], False)
      | Inr None \<Rightarrow> validate_schedule M rest)"

subsection \<open>Vocabulary for the extraction results\<close>

text \<open>
  Names for what the extraction loops compute, used to state their results: the machines
  whose indicator of job \<open>j\<close> reads exactly 1, the first of them in the order of
  \<open>model.machines\<close>, the jobs of a list whose first such machine is \<open>m\<close>, and the row
  these jobs fill from the left, the rest of the row being \<open>-2\<close>.
\<close>

definition matching_machines :: "model \<Rightarrow> nat \<Rightarrow> nat list" where
  "matching_machines M j = filter (\<lambda>m. value M (var_alpha j m) = Some 1) (model_machines M)"

definition assigned_machine :: "model \<Rightarrow> nat \<Rightarrow> nat option" where
  "assigned_machine M j = find (\<lambda>m. value M (var_alpha j m) = Some 1) (model_machines M)"

definition jobs_on :: "model \<Rightarrow> nat list \<Rightarrow> nat \<Rightarrow> nat list" where
  "jobs_on M js m = filter (\<lambda>j. assigned_machine M j = Some m) js"

definition row_of :: "model \<Rightarrow> nat list \<Rightarrow> nat \<Rightarrow> int list" where
  "row_of M js m =
     map int (jobs_on M js m) @ replicate (length (model_jobs M) - length (jobs_on M js m)) (- 2)"

subsection \<open>Example instances\<close>

definition example_jssp :: JobShopProblem where
  "example_jssp =
     \<lparr> jobs = [\<lparr> available_machines = [0 \<mapsto> 10], dependencies = [], days_till_delivery = 0 \<rparr>,
               \<lparr> available_machines = [0 \<mapsto> 5, 1 \<mapsto> 7], dependencies = [0], days_till_delivery = 1 \<rparr>,
               \<lparr> available_machines = [1 \<mapsto> 3], dependencies = [], days_till_delivery = 2 \<rparr>],
       machines = [0, 1],
       setup_times = [[0, 2, 4], [1, 0, 3], [5, 6, 0]] \<rparr>"

definition no_machine_jssp :: JobShopProblem where
  "no_machine_jssp =
     \<lparr> jobs = [\<lparr> available_machines = Map.empty, dependencies = [], days_till_delivery = 0 \<rparr>],
       machines = [0],
       setup_times = [[0]] \<rparr>"

definition stranded_jssp :: JobShopProblem where
  "stranded_jssp =
     \<lparr> jobs = [\<lparr> available_machines = [0 \<mapsto> 10], dependencies = [], days_till_delivery = 0 \<rparr>,
               \<lparr> available_machines = Map.empty, dependencies = [0], days_till_delivery = 0 \<rparr>],
       machines = [0],
       setup_times = [[0, 0], [0, 0]] \<rparr>"

text \<open>
  Solved values for \<open>example_jssp\<close> (job 0 then job 1 on machine 0, job 2 on machine 1),
  the same values with job 1 marked on both machines, and the same values with the
  indicator of job 2 relaxed to 0.999; three solvers; a schedule matching the first
  values; and a one-job model.
\<close>

definition example_values :: "var \<rightharpoonup> real" where
  "example_values v =
     (case v of
        var_t j \<Rightarrow> Some (if j = 1 then 12 else 0)
      | var_alpha j m \<Rightarrow> Some (if (j, m) \<in> {(0, 0), (1, 0), (2, 1)} then 1 else 0)
      | var_beta j1 j2 \<Rightarrow> Some (if j1 < j2 then 1 else 0)
      | var_tardiness j \<Rightarrow> Some (if j = 0 then 10 else 0))"

definition inconsistent_values :: "var \<rightharpoonup> real" where
  "inconsistent_values = example_values(var_alpha 1 1 \<mapsto> 1)"

definition relaxed_values :: "var \<rightharpoonup> real" where
  "relaxed_values = example_values(var_alpha 2 1 \<mapsto> 999 / 1000)"

definition example_solver :: solver where
  "example_solver m = (\<lparr> status = ok, termination_condition = optimal \<rparr>, example_values)"

definition infeasible_solver :: solver where
  "infeasible_solver m = (\<lparr> status = warning, termination_condition = infeasible \<rparr>, value m)"

definition time_limit_solver :: solver where
  "time_limit_solver m = (\<lparr> status = ok, termination_condition = maxTimeLimit \<rparr>, example_values)"

definition example_schedule :: schedule_type where
  "example_schedule =
     [(0, [(0, 0, 10), (1, 12, 17), (- 2, 0, 0)]),
      (1, [(2, 0, 3), (- 2, 0, 0), (- 2, 0, 0)])]"

definition late_schedule :: schedule_type where
  "late_schedule = [(0, [(0, 0, 10), (1, 13, 18), (- 2, 0, 0)])]"

definition single_job_model :: model where
  "single_job_model =
     \<lparr> model_jobs = [0],
       model_machines = [0],
       value = (\<lambda>v. case v of var_t j \<Rightarrow> Some 10 | var_alpha j m \<Rightarrow> Some 1 | _ \<Rightarrow> Some 0),
       objective = Quicksum [Ref (var_tardiness 0)],
       con_calculate_tardiness = [],
       con_one_machine_per_job = [],
       con_alpha_zero_if_not_available = [],
       con_precedence_order = [],
       con_no_overlapping_1 = [],
       con_no_overlapping_2 = [] \<rparr>"

section \<open>Properties of constraint construction\<close>


lemma Constraint_map_of:
  "Constraint is rule = Inr cs \<Longrightarrow>
   map_of cs i = (if i \<in> set is then (case rule i of Inr (Relational c) \<Rightarrow> Some c | _ \<Rightarrow> None) else None)"
proof (induction "is" arbitrary: cs)
  case Nil
  then show ?case by simp
next
  case (Cons a "is")
  then show ?case
    by (auto split: sum.splits rule_result.splits if_splits)
qed

lemma Constraint_Inr_iff:
  "(\<exists>cs. Constraint is rule = Inr cs) \<longleftrightarrow>
   (\<forall>i\<in>set is. rule i = Inr Skip \<or> (\<exists>c. rule i = Inr (Relational c)))"
  by (induction "is") (auto split: sum.splits rule_result.splits)

lemma Constraint_trivial_boolean:
  "\<forall>i\<in>set is. \<exists>r. rule i = Inr r \<Longrightarrow> \<exists>i\<in>set is. \<exists>b. rule i = Inr (Boolean b) \<Longrightarrow>
   Constraint is rule = Inl trivial_boolean"
proof (induction "is")
  case Nil
  then show ?case by simp
next
  case (Cons a "is")
  from Cons.prems(1) obtain r where r: "rule a = Inr r" by auto
  show ?case
  proof (cases "\<exists>i\<in>set is. \<exists>b. rule i = Inr (Boolean b)")
    case True
    with Cons have "Constraint is rule = Inl trivial_boolean" by simp
    with r show ?thesis by (cases r) simp_all
  next
    case False
    with Cons.prems(2) obtain b where "rule a = Inr (Boolean b)" by auto
    then show ?thesis by simp
  qed
qed

lemma generate_model_Inr:
  assumes "generate_model jssp = Inr M"
  shows "model_jobs M = [0..<length (jobs jssp)]"
    and "model_machines M = [0..<length (machines jssp)]"
    and "Constraint [0..<length (jobs jssp)] (calculate_tardiness jssp [0..<length (machines jssp)]) = Inr (con_calculate_tardiness M)"
    and "Constraint [0..<length (jobs jssp)] (one_machine_per_job jssp [0..<length (machines jssp)]) = Inr (con_one_machine_per_job M)"
    and "Constraint (List.product [0..<length (jobs jssp)] [0..<length (machines jssp)]) (alpha_zero_if_not_available jssp) = Inr (con_alpha_zero_if_not_available M)"
    and "Constraint (List.product [0..<length (jobs jssp)] [0..<length (jobs jssp)]) (precedence_order jssp [0..<length (machines jssp)]) = Inr (con_precedence_order M)"
    and "Constraint (List.product [0..<length (jobs jssp)] (List.product [0..<length (jobs jssp)] [0..<length (machines jssp)])) (no_overlapping_1 jssp) = Inr (con_no_overlapping_1 M)"
    and "Constraint (List.product [0..<length (jobs jssp)] (List.product [0..<length (jobs jssp)] [0..<length (machines jssp)])) (no_overlapping_2 jssp) = Inr (con_no_overlapping_2 M)"
    and "value M = initial_value [0..<length (jobs jssp)] [0..<length (machines jssp)]"
  using assms unfolding generate_model_def Let_def
  by (auto split: sum.splits)

lemma eval_quicksum: "eval \<sigma> (quicksum es) = sum_list (map (eval \<sigma>) es)"
  by (cases es) simp_all

lemma eval_duration_terms:
  "sum_list (map (eval \<sigma>) (duration_terms jssp ms j)) =
   (\<Sum>machine\<leftarrow>[machine \<leftarrow> ms. available_machines (jobs jssp ! j) machine \<noteq> None].
      \<sigma> (var_alpha j machine) * the (available_machines (jobs jssp ! j) machine))"
proof -
  have "\<And>xs. (\<forall>x\<in>set xs. available_machines (jobs jssp ! j) x \<noteq> None) \<Longrightarrow>
     sum_list (map (eval \<sigma>) (map (\<lambda>machine. Mul (Ref (var_alpha j machine))
        (Num (get_duration (jobs jssp ! j) machine))) xs)) =
     (\<Sum>machine\<leftarrow>xs. \<sigma> (var_alpha j machine) * the (available_machines (jobs jssp ! j) machine))"
    subgoal for xs
      by (induction xs) (auto simp: get_duration_def)
    done
  then show ?thesis
    unfolding duration_terms_def by simp
qed

lemmas rule_defs =
  calculate_tardiness_def one_machine_per_job_def duration_terms_def get_duration_def
  alpha_zero_if_not_available_def precedence_order_def no_overlapping_1_def
  no_overlapping_2_def setup_time_def

lemma example_generates: "\<exists>M. generate_model example_jssp = Inr M"
  unfolding generate_model_def example_jssp_def Let_def
  by (simp add: upt_rec rule_defs)

section \<open>The constraints of the generated model\<close>

text \<open>
  C3. For every job \<open>j\<close> of a generated model the component \<open>calculate_tardiness\<close> holds at
  index \<open>j\<close> a constraint that an assignment satisfies exactly when
  \<open>tardiness[j] \<ge> t[j] + (sum over the eligible machines of alpha[j, m] * duration[j, m])
  - days_till_delivery * 24 * 60\<close>; the variable \<open>tardiness[j]\<close> has the domain
  \<open>NonNegativeReals\<close>, whose members are the reals from 0 on, so the floor at 0 is the
  domain's and the constraint is one-sided.
\<close>

theorem calculate_tardiness_constraint:
  assumes "generate_model jssp = Inr M" and "j < length (jobs jssp)"
  shows "\<exists>c. map_of (con_calculate_tardiness M) j = Some c \<and>
           (\<forall>\<sigma>. holds \<sigma> c \<longleftrightarrow>
              \<sigma> (var_tardiness j) \<ge>
                \<sigma> (var_t j)
                + (\<Sum>machine\<leftarrow>[machine \<leftarrow> [0..<length (machines jssp)].
                                   available_machines (jobs jssp ! j) machine \<noteq> None].
                     \<sigma> (var_alpha j machine) * the (available_machines (jobs jssp ! j) machine))
                - days_till_delivery (jobs jssp ! j) * 24 * 60) \<and>
           var_domain M (var_tardiness j) = Some NonNegativeReals \<and>
           (\<forall>x. in_domain NonNegativeReals x \<longleftrightarrow> 0 \<le> x)"
proof -
  let ?ms = "[0..<length (machines jssp)]"
  let ?c = "Ge (Ref (var_tardiness j))
       (Sub (Add (Ref (var_t j)) (quicksum (duration_terms jssp ?ms j)))
            (Num (days_till_delivery (jobs jssp ! j) * 24 * 60)))"
  have "map_of (con_calculate_tardiness M) j = Some ?c"
    using Constraint_map_of [OF generate_model_Inr(3) [OF assms(1)], of j] assms(2)
    by (simp add: calculate_tardiness_def)
  moreover have "var_domain M (var_tardiness j) = Some NonNegativeReals"
    using generate_model_Inr(1,2) [OF assms(1)] assms(2) by (simp add: var_domain_def)
  ultimately show ?thesis
    by (simp add: eval_quicksum eval_duration_terms)
qed

theorem calculate_tardiness_constraint_witness:
  "\<exists>M. generate_model example_jssp = Inr M \<and> (1::nat) < length (jobs example_jssp) \<and>
     (\<exists>c. map_of (con_calculate_tardiness M) 1 = Some c \<and>
        (\<forall>\<sigma>. holds \<sigma> c \<longleftrightarrow>
           \<sigma> (var_tardiness 1) \<ge>
             \<sigma> (var_t 1) + (\<sigma> (var_alpha 1 0) * 5 + \<sigma> (var_alpha 1 1) * 7) - 1 * 24 * 60) \<and>
        var_domain M (var_tardiness 1) = Some NonNegativeReals)"
proof -
  obtain M where M: "generate_model example_jssp = Inr M"
    using example_generates by blast
  have j: "(1::nat) < length (jobs example_jssp)" by (simp add: example_jssp_def)
  have el: "[machine \<leftarrow> [0..<length (machines example_jssp)].
               available_machines (jobs example_jssp ! 1) machine \<noteq> None] = [0, 1]"
    by (simp add: example_jssp_def upt_rec)
  have d: "available_machines (jobs example_jssp ! 1) 0 = Some 5"
      "available_machines (jobs example_jssp ! 1) 1 = Some 7"
      "days_till_delivery (jobs example_jssp ! 1) = 1"
    by (simp_all add: example_jssp_def)
  from calculate_tardiness_constraint [OF M j] M j show ?thesis
    unfolding el by (simp add: d del: One_nat_def)
qed

text \<open>
  C4. For every job \<open>j\<close> of a generated model the component \<open>one_machine_per_job\<close> holds at
  \<open>j\<close> a constraint satisfied exactly when the sum of \<open>alpha[j, m]\<close> over the eligible
  machines of \<open>j\<close> equals 1; every pair of \<open>j\<close> and a machine keeps its binary variable,
  and the component \<open>alpha_zero_if_not_available\<close> holds the constraint \<open>alpha[j, m] = 0\<close>
  exactly at the pairs whose machine is not eligible.
\<close>

theorem single_assignment_and_lockout:
  assumes "generate_model jssp = Inr M" and "j < length (jobs jssp)"
  shows "(\<exists>c. map_of (con_one_machine_per_job M) j = Some c \<and>
            (\<forall>\<sigma>. holds \<sigma> c \<longleftrightarrow>
               (\<Sum>machine\<leftarrow>[machine \<leftarrow> [0..<length (machines jssp)].
                                 available_machines (jobs jssp ! j) machine \<noteq> None].
                    \<sigma> (var_alpha j machine)) = 1)) \<and>
         (\<forall>machine < length (machines jssp).
            var_domain M (var_alpha j machine) = Some Binary \<and>
            (if available_machines (jobs jssp ! j) machine = None
             then \<exists>c. map_of (con_alpha_zero_if_not_available M) (j, machine) = Some c \<and>
                      (\<forall>\<sigma>. holds \<sigma> c \<longleftrightarrow> \<sigma> (var_alpha j machine) = 0)
             else map_of (con_alpha_zero_if_not_available M) (j, machine) = None))"
proof -
  let ?ms = "[0..<length (machines jssp)]"
  let ?el = "[machine \<leftarrow> ?ms. available_machines (jobs jssp ! j) machine \<noteq> None]"
  let ?q = "quicksum (map (\<lambda>machine. Ref (var_alpha j machine)) ?el)"
  have ok: "one_machine_per_job jssp ?ms j = Inr Skip \<or>
            (\<exists>c. one_machine_per_job jssp ?ms j = Inr (Relational c))"
    using generate_model_Inr(4) [OF assms(1)] assms(2)
      Constraint_Inr_iff [of "[0..<length (jobs jssp)]" "one_machine_per_job jssp ?ms"]
    by auto
  have ne: "?el \<noteq> []"
  proof
    assume "?el = []"
    then have "one_machine_per_job jssp ?ms j = Inr (Boolean False)"
      unfolding one_machine_per_job_def by simp
    with ok show False by simp
  qed
  then obtain x xs where el: "?el = x # xs" by (cases ?el) auto
  have rule: "one_machine_per_job jssp ?ms j = Inr (Relational (Eq ?q (Num 1)))"
    unfolding one_machine_per_job_def el by simp
  have one: "map_of (con_one_machine_per_job M) j = Some (Eq ?q (Num 1))"
    using Constraint_map_of [OF generate_model_Inr(4) [OF assms(1)], of j] assms(2) rule
    by simp
  have sem: "\<And>\<sigma>. eval \<sigma> ?q = (\<Sum>machine\<leftarrow>?el. \<sigma> (var_alpha j machine))"
    by (simp add: eval_quicksum comp_def)
  have first: "\<exists>c. map_of (con_one_machine_per_job M) j = Some c \<and>
            (\<forall>\<sigma>. holds \<sigma> c \<longleftrightarrow> (\<Sum>machine\<leftarrow>?el. \<sigma> (var_alpha j machine)) = 1)"
    using one sem by simp
  have second: "var_domain M (var_alpha j machine) = Some Binary \<and>
            (if available_machines (jobs jssp ! j) machine = None
             then \<exists>c. map_of (con_alpha_zero_if_not_available M) (j, machine) = Some c \<and>
                      (\<forall>\<sigma>. holds \<sigma> c \<longleftrightarrow> \<sigma> (var_alpha j machine) = 0)
             else map_of (con_alpha_zero_if_not_available M) (j, machine) = None)"
    if "machine < length (machines jssp)" for machine
    using Constraint_map_of [OF generate_model_Inr(5) [OF assms(1)], of "(j, machine)"]
      generate_model_Inr(1,2) [OF assms(1)] assms(2) that
    by (simp add: alpha_zero_if_not_available_def var_domain_def)
  from first second show ?thesis by blast
qed

theorem single_assignment_and_lockout_witness:
  "\<exists>M. generate_model example_jssp = Inr M \<and> (0::nat) < length (jobs example_jssp) \<and>
     (\<exists>c. map_of (con_one_machine_per_job M) 0 = Some c \<and>
        (\<forall>\<sigma>. holds \<sigma> c \<longleftrightarrow> \<sigma> (var_alpha 0 0) = 1)) \<and>
     map_of (con_alpha_zero_if_not_available M) (0, 0) = None \<and>
     (\<exists>c. map_of (con_alpha_zero_if_not_available M) (0, 1) = Some c \<and>
        (\<forall>\<sigma>. holds \<sigma> c \<longleftrightarrow> \<sigma> (var_alpha 0 1) = 0)) \<and>
     var_domain M (var_alpha 0 1) = Some Binary"
proof -
  obtain M where M: "generate_model example_jssp = Inr M"
    using example_generates by blast
  have j: "(0::nat) < length (jobs example_jssp)" by (simp add: example_jssp_def)
  have el: "[machine \<leftarrow> [0..<length (machines example_jssp)].
               available_machines (jobs example_jssp ! 0) machine \<noteq> None] = [0]"
    by (simp add: example_jssp_def upt_rec)
  have d: "available_machines (jobs example_jssp ! 0) 0 = Some 10"
      "available_machines (jobs example_jssp ! 0) 1 = None"
      "(0::nat) < length (machines example_jssp)" "(1::nat) < length (machines example_jssp)"
    by (simp_all add: example_jssp_def)
  note th = single_assignment_and_lockout [OF M j, unfolded el]
  from th have a: "\<exists>c. map_of (con_one_machine_per_job M) 0 = Some c \<and>
        (\<forall>\<sigma>. holds \<sigma> c \<longleftrightarrow> \<sigma> (var_alpha 0 0) = 1)" by simp
  from th d(3) have b: "map_of (con_alpha_zero_if_not_available M) (0, 0) = None"
    using d(1) by (metis option.distinct(1))
  from th d(4) have c: "(\<exists>c. map_of (con_alpha_zero_if_not_available M) (0, 1) = Some c \<and>
        (\<forall>\<sigma>. holds \<sigma> c \<longleftrightarrow> \<sigma> (var_alpha 0 1) = 0)) \<and>
     var_domain M (var_alpha 0 1) = Some Binary"
    using d(2) by metis
  from a b c M j show ?thesis by blast
qed

text \<open>
  C5. For every ordered pair of jobs \<open>(j1, j2)\<close> of a generated model: when \<open>j2\<close> is among
  the dependencies of \<open>j1\<close>, the component \<open>precedence_order\<close> holds at \<open>(j1, j2)\<close> a
  constraint satisfied exactly when \<open>t[j1] \<ge> t[j2] + (sum over the eligible machines of
  j2 of alpha[j2, m] * duration[j2, m])\<close>; otherwise it holds nothing at \<open>(j1, j2)\<close>.
\<close>

theorem precedence_constraint:
  assumes "generate_model jssp = Inr M"
    and "j1 < length (jobs jssp)" and "j2 < length (jobs jssp)"
  shows "if j2 \<in> set (dependencies (jobs jssp ! j1))
         then \<exists>c. map_of (con_precedence_order M) (j1, j2) = Some c \<and>
                (\<forall>\<sigma>. holds \<sigma> c \<longleftrightarrow>
                   \<sigma> (var_t j1) \<ge>
                     \<sigma> (var_t j2)
                     + (\<Sum>machine\<leftarrow>[machine \<leftarrow> [0..<length (machines jssp)].
                                        available_machines (jobs jssp ! j2) machine \<noteq> None].
                          \<sigma> (var_alpha j2 machine) * the (available_machines (jobs jssp ! j2) machine)))
         else map_of (con_precedence_order M) (j1, j2) = None"
  using Constraint_map_of [OF generate_model_Inr(6) [OF assms(1)], of "(j1, j2)"] assms(2,3)
  by (auto simp: precedence_order_def eval_quicksum eval_duration_terms)

theorem precedence_constraint_witness:
  "\<exists>M. generate_model example_jssp = Inr M \<and>
     (1::nat) < length (jobs example_jssp) \<and> (0::nat) < length (jobs example_jssp) \<and>
     (\<exists>c. map_of (con_precedence_order M) (1, 0) = Some c \<and>
        (\<forall>\<sigma>. holds \<sigma> c \<longleftrightarrow> \<sigma> (var_t 1) \<ge> \<sigma> (var_t 0) + \<sigma> (var_alpha 0 0) * 10)) \<and>
     map_of (con_precedence_order M) (0, 1) = None"
proof -
  obtain M where M: "generate_model example_jssp = Inr M"
    using example_generates by blast
  have j: "(1::nat) < length (jobs example_jssp)" "(0::nat) < length (jobs example_jssp)"
    by (simp_all add: example_jssp_def)
  have el: "[machine \<leftarrow> [0..<length (machines example_jssp)].
               available_machines (jobs example_jssp ! 0) machine \<noteq> None] = [0]"
    by (simp add: example_jssp_def upt_rec)
  have d: "available_machines (jobs example_jssp ! 0) 0 = Some 10"
     "dependencies (jobs example_jssp ! 1) = [0]" "dependencies (jobs example_jssp ! 0) = []"
    by (simp_all add: example_jssp_def)
  from precedence_constraint [OF M j(1) j(2)] precedence_constraint [OF M j(2) j(1)] M j
  show ?thesis
    unfolding el by (simp add: d del: One_nat_def)
qed

text \<open>
  C1. For two distinct jobs \<open>j1\<close>, \<open>j2\<close> of a generated model and every machine eligible
  for both, the components \<open>no_overlapping_1\<close> and \<open>no_overlapping_2\<close> hold at
  \<open>(j1, j2, machine)\<close> the two big-M inequalities, with \<open>M = H = 10000\<close>, the duration of
  the other job on that machine and the setup time between the two; when the two jobs
  share no eligible machine, neither component holds a constraint for the pair, in
  either order and at any machine.
\<close>

theorem mutual_exclusion_constraints:
  assumes "generate_model jssp = Inr M"
    and "j1 < length (jobs jssp)" and "j2 < length (jobs jssp)" and "j1 \<noteq> j2"
  shows "(\<forall>machine d1 d2.
            machine < length (machines jssp) \<and>
            available_machines (jobs jssp ! j1) machine = Some d1 \<and>
            available_machines (jobs jssp ! j2) machine = Some d2 \<longrightarrow>
            (\<exists>c1 c2 s12 s21.
               setup_time jssp j1 j2 = Inr s12 \<and> setup_time jssp j2 j1 = Inr s21 \<and>
               map_of (con_no_overlapping_1 M) (j1, j2, machine) = Some c1 \<and>
               map_of (con_no_overlapping_2 M) (j1, j2, machine) = Some c2 \<and>
               (\<forall>\<sigma>. holds \<sigma> c1 \<longleftrightarrow>
                  \<sigma> (var_t j1) \<ge> \<sigma> (var_t j2) + d2 + s21
                    - (2 - \<sigma> (var_alpha j1 machine) - \<sigma> (var_alpha j2 machine) + \<sigma> (var_beta j1 j2)) * H) \<and>
               (\<forall>\<sigma>. holds \<sigma> c2 \<longleftrightarrow>
                  \<sigma> (var_t j2) \<ge> \<sigma> (var_t j1) + d1 + s12
                    - (3 - \<sigma> (var_alpha j1 machine) - \<sigma> (var_alpha j2 machine) - \<sigma> (var_beta j1 j2)) * H))) \<and>
         ((\<forall>machine < length (machines jssp).
              available_machines (jobs jssp ! j1) machine = None \<or>
              available_machines (jobs jssp ! j2) machine = None) \<longrightarrow>
          (\<forall>machine.
              map_of (con_no_overlapping_1 M) (j1, j2, machine) = None \<and>
              map_of (con_no_overlapping_2 M) (j1, j2, machine) = None \<and>
              map_of (con_no_overlapping_1 M) (j2, j1, machine) = None \<and>
              map_of (con_no_overlapping_2 M) (j2, j1, machine) = None))"
proof -
  let ?idx = "List.product [0..<length (jobs jssp)]
                (List.product [0..<length (jobs jssp)] [0..<length (machines jssp)])"
  note c1 = generate_model_Inr(7) [OF assms(1)]
  note c2 = generate_model_Inr(8) [OF assms(1)]
  have shared: "\<exists>c1 c2 s12 s21.
               setup_time jssp j1 j2 = Inr s12 \<and> setup_time jssp j2 j1 = Inr s21 \<and>
               map_of (con_no_overlapping_1 M) (j1, j2, machine) = Some c1 \<and>
               map_of (con_no_overlapping_2 M) (j1, j2, machine) = Some c2 \<and>
               (\<forall>\<sigma>. holds \<sigma> c1 \<longleftrightarrow>
                  \<sigma> (var_t j1) \<ge> \<sigma> (var_t j2) + d2 + s21
                    - (2 - \<sigma> (var_alpha j1 machine) - \<sigma> (var_alpha j2 machine) + \<sigma> (var_beta j1 j2)) * H) \<and>
               (\<forall>\<sigma>. holds \<sigma> c2 \<longleftrightarrow>
                  \<sigma> (var_t j2) \<ge> \<sigma> (var_t j1) + d1 + s12
                    - (3 - \<sigma> (var_alpha j1 machine) - \<sigma> (var_alpha j2 machine) - \<sigma> (var_beta j1 j2)) * H)"
    if m: "machine < length (machines jssp)"
      and d1: "available_machines (jobs jssp ! j1) machine = Some d1"
      and d2: "available_machines (jobs jssp ! j2) machine = Some d2"
    for machine d1 d2
  proof -
    have mem: "(j1, j2, machine) \<in> set ?idx"
      using assms(2,3) m by simp
    have r1: "no_overlapping_1 jssp (j1, j2, machine) = Inr Skip \<or>
              (\<exists>c. no_overlapping_1 jssp (j1, j2, machine) = Inr (Relational c))"
      using c1 mem Constraint_Inr_iff [of ?idx "no_overlapping_1 jssp"] by blast
    have r2: "no_overlapping_2 jssp (j1, j2, machine) = Inr Skip \<or>
              (\<exists>c. no_overlapping_2 jssp (j1, j2, machine) = Inr (Relational c))"
      using c2 mem Constraint_Inr_iff [of ?idx "no_overlapping_2 jssp"] by blast
    from r1 obtain s21 where s21: "setup_time jssp j2 j1 = Inr s21"
      using assms(4) d1 d2
      by (cases "setup_time jssp j2 j1") (auto simp: no_overlapping_1_def)
    from r2 obtain s12 where s12: "setup_time jssp j1 j2 = Inr s12"
      using assms(4) d1 d2
      by (cases "setup_time jssp j1 j2") (auto simp: no_overlapping_2_def)
    have m1: "map_of (con_no_overlapping_1 M) (j1, j2, machine) =
        Some (Ge (Ref (var_t j1))
                    (Sub (Add (Add (Ref (var_t j2)) (Num d2)) (Num s21))
                         (Mul (Add (Sub (Sub (Num 2) (Ref (var_alpha j1 machine)))
                                        (Ref (var_alpha j2 machine)))
                                   (Ref (var_beta j1 j2)))
                              (Num H))))"
      using Constraint_map_of [OF c1, of "(j1, j2, machine)"] mem assms(4) d1 d2 s21
      by (simp add: no_overlapping_1_def)
    have m2: "map_of (con_no_overlapping_2 M) (j1, j2, machine) =
        Some (Ge (Ref (var_t j2))
                    (Sub (Add (Add (Ref (var_t j1)) (Num d1)) (Num s12))
                         (Mul (Sub (Sub (Sub (Num 3) (Ref (var_alpha j1 machine)))
                                        (Ref (var_alpha j2 machine)))
                                   (Ref (var_beta j1 j2)))
                              (Num H))))"
      using Constraint_map_of [OF c2, of "(j1, j2, machine)"] mem assms(4) d1 d2 s12
      by (simp add: no_overlapping_2_def)
    show ?thesis
      using s12 s21 m1 m2 by simp
  qed
  have none: "map_of (con_no_overlapping_1 M) (j1, j2, machine) = None \<and>
              map_of (con_no_overlapping_2 M) (j1, j2, machine) = None \<and>
              map_of (con_no_overlapping_1 M) (j2, j1, machine) = None \<and>
              map_of (con_no_overlapping_2 M) (j2, j1, machine) = None"
    if ns: "\<forall>machine < length (machines jssp).
              available_machines (jobs jssp ! j1) machine = None \<or>
              available_machines (jobs jssp ! j2) machine = None"
    for machine
  proof (cases "machine < length (machines jssp)")
    case True
    with ns have "available_machines (jobs jssp ! j1) machine = None \<or>
              available_machines (jobs jssp ! j2) machine = None" by simp
    then show ?thesis
      using Constraint_map_of [OF c1, of "(j1, j2, machine)"]
        Constraint_map_of [OF c2, of "(j1, j2, machine)"]
        Constraint_map_of [OF c1, of "(j2, j1, machine)"]
        Constraint_map_of [OF c2, of "(j2, j1, machine)"]
      by (auto simp: no_overlapping_1_def no_overlapping_2_def)
  next
    case False
    then show ?thesis
      using Constraint_map_of [OF c1, of "(j1, j2, machine)"]
        Constraint_map_of [OF c2, of "(j1, j2, machine)"]
        Constraint_map_of [OF c1, of "(j2, j1, machine)"]
        Constraint_map_of [OF c2, of "(j2, j1, machine)"]
      by simp
  qed
  from shared none show ?thesis by blast
qed

theorem mutual_exclusion_constraints_witness:
  "\<exists>M. generate_model example_jssp = Inr M \<and>
     (0::nat) < length (jobs example_jssp) \<and> (1::nat) < length (jobs example_jssp) \<and>
     (2::nat) < length (jobs example_jssp) \<and>
     (\<exists>c1 c2.
        map_of (con_no_overlapping_1 M) (0, 1, 0) = Some c1 \<and>
        map_of (con_no_overlapping_2 M) (0, 1, 0) = Some c2 \<and>
        (\<forall>\<sigma>. holds \<sigma> c1 \<longleftrightarrow>
           \<sigma> (var_t 0) \<ge> \<sigma> (var_t 1) + 5 + 1
             - (2 - \<sigma> (var_alpha 0 0) - \<sigma> (var_alpha 1 0) + \<sigma> (var_beta 0 1)) * 10000) \<and>
        (\<forall>\<sigma>. holds \<sigma> c2 \<longleftrightarrow>
           \<sigma> (var_t 1) \<ge> \<sigma> (var_t 0) + 10 + 2
             - (3 - \<sigma> (var_alpha 0 0) - \<sigma> (var_alpha 1 0) - \<sigma> (var_beta 0 1)) * 10000)) \<and>
     (\<forall>machine. map_of (con_no_overlapping_1 M) (0, 2, machine) = None \<and>
                map_of (con_no_overlapping_2 M) (0, 2, machine) = None \<and>
                map_of (con_no_overlapping_1 M) (2, 0, machine) = None \<and>
                map_of (con_no_overlapping_2 M) (2, 0, machine) = None)"
proof -
  obtain M where M: "generate_model example_jssp = Inr M"
    using example_generates by blast
  have j: "(0::nat) < length (jobs example_jssp)" "(1::nat) < length (jobs example_jssp)"
      "(2::nat) < length (jobs example_jssp)"
    by (simp_all add: example_jssp_def)
  have d: "(0::nat) < length (machines example_jssp)"
      "available_machines (jobs example_jssp ! 0) 0 = Some 10"
      "available_machines (jobs example_jssp ! 1) 0 = Some 5"
    by (simp_all add: example_jssp_def)
  have s: "setup_time example_jssp 0 1 = Inr 2" "setup_time example_jssp 1 0 = Inr 1"
    by (simp_all add: example_jssp_def setup_time_def)
  have ns: "\<forall>machine < length (machines example_jssp).
              available_machines (jobs example_jssp ! 0) machine = None \<or>
              available_machines (jobs example_jssp ! 2) machine = None"
    by (simp add: example_jssp_def)
  have ne: "(0::nat) \<noteq> 1" "(0::nat) \<noteq> 2" by simp_all
  from mutual_exclusion_constraints [OF M j(1) j(2) ne(1)] d
  have "\<exists>c1 c2 s12 s21.
               setup_time example_jssp 0 1 = Inr s12 \<and> setup_time example_jssp 1 0 = Inr s21 \<and>
               map_of (con_no_overlapping_1 M) (0, 1, 0) = Some c1 \<and>
               map_of (con_no_overlapping_2 M) (0, 1, 0) = Some c2 \<and>
               (\<forall>\<sigma>. holds \<sigma> c1 \<longleftrightarrow>
                  \<sigma> (var_t 0) \<ge> \<sigma> (var_t 1) + 5 + s21
                    - (2 - \<sigma> (var_alpha 0 0) - \<sigma> (var_alpha 1 0) + \<sigma> (var_beta 0 1)) * H) \<and>
               (\<forall>\<sigma>. holds \<sigma> c2 \<longleftrightarrow>
                  \<sigma> (var_t 1) \<ge> \<sigma> (var_t 0) + 10 + s12
                    - (3 - \<sigma> (var_alpha 0 0) - \<sigma> (var_alpha 1 0) - \<sigma> (var_beta 0 1)) * H)"
    by blast
  then have a: "\<exists>c1 c2.
        map_of (con_no_overlapping_1 M) (0, 1, 0) = Some c1 \<and>
        map_of (con_no_overlapping_2 M) (0, 1, 0) = Some c2 \<and>
        (\<forall>\<sigma>. holds \<sigma> c1 \<longleftrightarrow>
           \<sigma> (var_t 0) \<ge> \<sigma> (var_t 1) + 5 + 1
             - (2 - \<sigma> (var_alpha 0 0) - \<sigma> (var_alpha 1 0) + \<sigma> (var_beta 0 1)) * 10000) \<and>
        (\<forall>\<sigma>. holds \<sigma> c2 \<longleftrightarrow>
           \<sigma> (var_t 1) \<ge> \<sigma> (var_t 0) + 10 + 2
             - (3 - \<sigma> (var_alpha 0 0) - \<sigma> (var_alpha 1 0) - \<sigma> (var_beta 0 1)) * 10000)"
    unfolding s H_def by auto
  from mutual_exclusion_constraints [OF M j(1) j(3) ne(2)] ns
  have b: "\<forall>machine. map_of (con_no_overlapping_1 M) (0, 2, machine) = None \<and>
                map_of (con_no_overlapping_2 M) (0, 2, machine) = None \<and>
                map_of (con_no_overlapping_1 M) (2, 0, machine) = None \<and>
                map_of (con_no_overlapping_2 M) (2, 0, machine) = None"
    by blast
  from a b M j show ?thesis by blast
qed

section \<open>A job without an eligible machine\<close>

lemma calculate_tardiness_never_fails:
  "\<exists>c. calculate_tardiness jssp ms j = Inr (Relational c)"
  by (simp add: calculate_tardiness_def)

lemma Constraint_calculate_tardiness:
  "\<exists>cs. Constraint js (calculate_tardiness jssp ms) = Inr cs"
  using Constraint_Inr_iff [of js "calculate_tardiness jssp ms"]
    calculate_tardiness_never_fails by blast

text \<open>
  Generation succeeds when every job has an eligible machine and the setup-time matrix
  covers all pairs of jobs.
\<close>

lemma generate_model_succeeds:
  assumes el: "\<forall>j<length (jobs jssp). \<exists>machine<length (machines jssp).
                 available_machines (jobs jssp ! j) machine \<noteq> None"
    and rows: "length (jobs jssp) \<le> length (setup_times jssp)"
    and cols: "\<forall>row\<in>set (setup_times jssp). length (jobs jssp) \<le> length row"
  shows "\<exists>M. generate_model jssp = Inr M"
proof -
  let ?js = "[0..<length (jobs jssp)]" and ?ms = "[0..<length (machines jssp)]"
  have st: "\<exists>s. setup_time jssp a b = Inr s"
    if "a < length (jobs jssp)" "b < length (jobs jssp)" for a b
  proof -
    have a: "a < length (setup_times jssp)" using that(1) rows by simp
    then have "setup_times jssp ! a \<in> set (setup_times jssp)" by simp
    with cols that(2) have "b < length (setup_times jssp ! a)" by fastforce
    with a show ?thesis by (simp add: setup_time_def)
  qed
  obtain c1 where c1: "Constraint ?js (calculate_tardiness jssp ?ms) = Inr c1"
    using Constraint_calculate_tardiness by blast
  have "\<forall>j\<in>set ?js. one_machine_per_job jssp ?ms j = Inr Skip \<or>
          (\<exists>c. one_machine_per_job jssp ?ms j = Inr (Relational c))"
  proof
    fix j assume "j \<in> set ?js"
    then have "j < length (jobs jssp)" by simp
    with el obtain machine where "machine < length (machines jssp)"
      "available_machines (jobs jssp ! j) machine \<noteq> None" by blast
    then have "machine \<in> set (filter (\<lambda>machine. available_machines (jobs jssp ! j) machine \<noteq> None) ?ms)"
      by simp
    then have "filter (\<lambda>machine. available_machines (jobs jssp ! j) machine \<noteq> None) ?ms \<noteq> []"
      by (metis empty_iff list.set(1))
    then obtain x xs where
      "filter (\<lambda>machine. available_machines (jobs jssp ! j) machine \<noteq> None) ?ms = x # xs"
      by (cases "filter (\<lambda>machine. available_machines (jobs jssp ! j) machine \<noteq> None) ?ms") auto
    then show "one_machine_per_job jssp ?ms j = Inr Skip \<or>
          (\<exists>c. one_machine_per_job jssp ?ms j = Inr (Relational c))"
      by (simp add: one_machine_per_job_def)
  qed
  then obtain c2 where c2: "Constraint ?js (one_machine_per_job jssp ?ms) = Inr c2"
    using Constraint_Inr_iff [of ?js "one_machine_per_job jssp ?ms"] by blast
  have "\<forall>i\<in>set (List.product ?js ?ms). alpha_zero_if_not_available jssp i = Inr Skip \<or>
          (\<exists>c. alpha_zero_if_not_available jssp i = Inr (Relational c))"
    by (auto simp: alpha_zero_if_not_available_def)
  then obtain c3 where c3:
    "Constraint (List.product ?js ?ms) (alpha_zero_if_not_available jssp) = Inr c3"
    using Constraint_Inr_iff [of "List.product ?js ?ms" "alpha_zero_if_not_available jssp"] by blast
  have "\<forall>i\<in>set (List.product ?js ?js). precedence_order jssp ?ms i = Inr Skip \<or>
          (\<exists>c. precedence_order jssp ?ms i = Inr (Relational c))"
    by (auto simp: precedence_order_def)
  then obtain c4 where c4:
    "Constraint (List.product ?js ?js) (precedence_order jssp ?ms) = Inr c4"
    using Constraint_Inr_iff [of "List.product ?js ?js" "precedence_order jssp ?ms"] by blast
  have "\<forall>i\<in>set (List.product ?js (List.product ?js ?ms)). no_overlapping_1 jssp i = Inr Skip \<or>
          (\<exists>c. no_overlapping_1 jssp i = Inr (Relational c))"
  proof
    fix i assume i: "i \<in> set (List.product ?js (List.product ?js ?ms))"
    obtain j1 j2 machine where t: "i = (j1, j2, machine)" by (cases i) auto
    with i st [of j2 j1] obtain s where "setup_time jssp j2 j1 = Inr s" by auto
    then show "no_overlapping_1 jssp i = Inr Skip \<or>
          (\<exists>c. no_overlapping_1 jssp i = Inr (Relational c))"
      unfolding t by (auto simp: no_overlapping_1_def)
  qed
  then obtain c5 where c5:
    "Constraint (List.product ?js (List.product ?js ?ms)) (no_overlapping_1 jssp) = Inr c5"
    using Constraint_Inr_iff [of "List.product ?js (List.product ?js ?ms)" "no_overlapping_1 jssp"]
    by blast
  have "\<forall>i\<in>set (List.product ?js (List.product ?js ?ms)). no_overlapping_2 jssp i = Inr Skip \<or>
          (\<exists>c. no_overlapping_2 jssp i = Inr (Relational c))"
  proof
    fix i assume i: "i \<in> set (List.product ?js (List.product ?js ?ms))"
    obtain j1 j2 machine where t: "i = (j1, j2, machine)" by (cases i) auto
    with i st [of j1 j2] obtain s where "setup_time jssp j1 j2 = Inr s" by auto
    then show "no_overlapping_2 jssp i = Inr Skip \<or>
          (\<exists>c. no_overlapping_2 jssp i = Inr (Relational c))"
      unfolding t by (auto simp: no_overlapping_2_def)
  qed
  then obtain c6 where c6:
    "Constraint (List.product ?js (List.product ?js ?ms)) (no_overlapping_2 jssp) = Inr c6"
    using Constraint_Inr_iff [of "List.product ?js (List.product ?js ?ms)" "no_overlapping_2 jssp"]
    by blast
  show ?thesis
    unfolding generate_model_def Let_def by (simp add: c1 c2 c3 c4 c5 c6)
qed

text \<open>
  Whenever some job has no eligible machine among the model's machines, the rule
  \<open>one_machine_per_job\<close> compares the number 0 with the number 1, the result is the
  Python value \<open>False\<close>, and the constraint component refuses it with a \<open>ValueError\<close>.
\<close>

lemma empty_eligible_set_fails_at_build:
  assumes "j < length (jobs jssp)"
    and "[machine \<leftarrow> [0..<length (machines jssp)].
            available_machines (jobs jssp ! j) machine \<noteq> None] = []"
  shows "generate_model jssp =
           Inl (ValueError ''Invalid constraint expression. The constraint expression resolved to a trivial Boolean'')"
proof -
  let ?js = "[0..<length (jobs jssp)]" and ?ms = "[0..<length (machines jssp)]"
  from assms(2) have "one_machine_per_job jssp ?ms j = Inr (Boolean False)"
    by (simp add: one_machine_per_job_def)
  then have "\<exists>i\<in>set ?js. \<exists>b. one_machine_per_job jssp ?ms i = Inr (Boolean b)"
    using assms(1) by auto
  moreover have "\<forall>i\<in>set ?js. \<exists>r. one_machine_per_job jssp ?ms i = Inr r"
    by (simp add: one_machine_per_job_def)
  ultimately have "Constraint ?js (one_machine_per_job jssp ?ms) = Inl trivial_boolean"
    by (rule Constraint_trivial_boolean [rotated])
  moreover obtain cs where "Constraint ?js (calculate_tardiness jssp ?ms) = Inr cs"
    using Constraint_calculate_tardiness by blast
  ultimately show ?thesis
    unfolding generate_model_def Let_def by (simp add: trivial_boolean_def)
qed

lemma stranded_job_fails_at_build:
  "(1::nat) < length (jobs stranded_jssp) \<and>
   [machine \<leftarrow> [0..<length (machines stranded_jssp)].
       available_machines (jobs stranded_jssp ! 1) machine \<noteq> None] = [] \<and>
   generate_model stranded_jssp =
     Inl (ValueError ''Invalid constraint expression. The constraint expression resolved to a trivial Boolean'')"
proof -
  have j: "(1::nat) < length (jobs stranded_jssp)" by (simp add: stranded_jssp_def)
  have e: "[machine \<leftarrow> [0..<length (machines stranded_jssp)].
       available_machines (jobs stranded_jssp ! 1) machine \<noteq> None] = []"
    by (simp add: stranded_jssp_def)
  from empty_eligible_set_fails_at_build [OF j e] j e show ?thesis by simp
qed

text \<open>
  C2 (a defect of the code). The specification wants a job with an empty
  eligible-machine set to pass model generation and to surface as infeasibility in the
  solve step. On the problem with a single job, a single machine and an empty duration
  dict the code does not get that far: \<open>generate_model\<close> raises the \<open>ValueError\<close> of the
  constraint component while it builds \<open>one_machine_per_job\<close>, so no model exists for
  \<open>solve_model\<close> to report on.
\<close>

theorem empty_eligible_set_build_error:
  "[machine \<leftarrow> [0..<length (machines no_machine_jssp)].
       available_machines (jobs no_machine_jssp ! 0) machine \<noteq> None] = [] \<and>
   generate_model no_machine_jssp =
     Inl (ValueError ''Invalid constraint expression. The constraint expression resolved to a trivial Boolean'')"
  unfolding generate_model_def no_machine_jssp_def Let_def
  by (simp add: upt_rec rule_defs trivial_boolean_def)

section \<open>The extraction loops\<close>

lemma machines_found:
  "get_schedule_machines M j ms True s =
   Inr (s\<lparr>printed := printed s @
          replicate (length (filter (\<lambda>m. value M (var_alpha j m) = Some 1) ms)) multiple_machines\<rparr>)"
proof (induction ms arbitrary: s)
  case Nil
  then show ?case by simp
next
  case (Cons m ms)
  then show ?case by (simp add: replicate_append_same)
qed

lemma machines_not_found:
  "get_schedule_machines M j ms False s =
   (case find (\<lambda>m. value M (var_alpha j m) = Some 1) ms of
      None \<Rightarrow> Inr s
    | Some m \<Rightarrow>
       (case jobs_assigned_on_machine s m of
          None \<Rightarrow> Inl KeyError
        | Some c \<Rightarrow>
           (case set_slot (job_order s) m c (int j) of
              Inl e \<Rightarrow> Inl e
            | Inr a \<Rightarrow>
               Inr (s\<lparr>job_order := a,
                      jobs_assigned_on_machine := (jobs_assigned_on_machine s)(m \<mapsto> c + 1),
                      printed := printed s @
                        replicate (length (filter (\<lambda>m. value M (var_alpha j m) = Some 1) ms) - 1)
                          multiple_machines\<rparr>))))"
proof (induction ms)
  case Nil
  then show ?case by simp
next
  case (Cons m ms)
  show ?case
  proof (cases "value M (var_alpha j m) = Some 1")
    case True
    then show ?thesis
      by (simp add: machines_found split: option.splits sum.splits)
  next
    case False
    then show ?thesis using Cons by (simp split: option.splits sum.splits)
  qed
qed

lemma update_filled_row:
  assumes "length xs < n"
  shows "(xs @ replicate (n - length xs) v)[length xs := a] = (xs @ [a]) @ replicate (n - length (xs @ [a])) v"
proof -
  from assms obtain d where d: "n - length xs = Suc d" by (cases "n - length xs") auto
  then have "n - length (xs @ [a]) = d" by simp
  with d show ?thesis by (simp add: list_update_append)
qed

lemma assigned_machine_in_range:
  "assigned_machine M j = Some m \<Longrightarrow> m \<in> set (model_machines M)"
  unfolding assigned_machine_def by (auto simp: find_Some_iff)

lemma length_row_of:
  "length (jobs_on M js m) \<le> length (model_jobs M) \<Longrightarrow> length (row_of M js m) = length (model_jobs M)"
  by (simp add: row_of_def)

lemma jobs_on_snoc:
  "jobs_on M (js @ [j]) m = (if assigned_machine M j = Some m then jobs_on M js m @ [j] else jobs_on M js m)"
  by (simp add: jobs_on_def)

lemma length_jobs_on: "length (jobs_on M js m) \<le> length js"
  by (simp add: jobs_on_def)

text \<open>one job: the step of the outer loop\<close>

lemma get_schedule_machines_step:
  assumes ms: "model_machines M = [0..<k]"
    and jo: "job_order s = map (row_of M done) [0..<k]"
    and cnt: "\<forall>m<k. jobs_assigned_on_machine s m = Some (length (jobs_on M done m))"
    and len: "length done < length (model_jobs M)"
  shows "\<exists>s'. get_schedule_machines M j (model_machines M) False s = Inr s' \<and>
           job_order s' = map (row_of M (done @ [j])) [0..<k] \<and>
           (\<forall>m<k. jobs_assigned_on_machine s' m = Some (length (jobs_on M (done @ [j]) m))) \<and>
           printed s' = printed s @ replicate (length (matching_machines M j) - 1) multiple_machines"
proof (cases "assigned_machine M j")
  case None
  then have same: "\<And>m. jobs_on M (done @ [j]) m = jobs_on M done m"
    by (simp add: jobs_on_snoc)
  have "length (matching_machines M j) = 0"
    using None unfolding assigned_machine_def matching_machines_def
    by (simp add: find_None_iff filter_empty_conv)
  moreover have "get_schedule_machines M j (model_machines M) False s = Inr s"
    using None unfolding assigned_machine_def by (simp add: machines_not_found)
  ultimately show ?thesis
    using jo cnt by (simp add: same row_of_def)
next
  case (Some m)
  then have mk: "m < k" using assigned_machine_in_range [of M j m] ms by simp
  let ?c = "length (jobs_on M done m)"
  have c: "jobs_assigned_on_machine s m = Some ?c" using cnt mk by simp
  have clt: "?c < length (model_jobs M)"
    using length_jobs_on [of M "done" m] len by simp
  have rowm: "job_order s ! m = row_of M done m" using jo mk by simp
  have lrow: "length (job_order s ! m) = length (model_jobs M)"
    using rowm clt by (simp add: length_row_of)
  let ?a = "(job_order s)[m := (job_order s ! m)[?c := int j]]"
  have slot: "set_slot (job_order s) m ?c (int j) = Inr ?a"
    using mk jo lrow clt by (simp add: set_slot_def)
  let ?s' = "s\<lparr>job_order := ?a,
              jobs_assigned_on_machine := (jobs_assigned_on_machine s)(m \<mapsto> ?c + 1),
              printed := printed s @ replicate (length (matching_machines M j) - 1) multiple_machines\<rparr>"
  have run: "get_schedule_machines M j (model_machines M) False s = Inr ?s'"
    using Some c slot unfolding assigned_machine_def matching_machines_def
    by (simp add: machines_not_found)
  have newrow: "(job_order s ! m)[?c := int j] = row_of M (done @ [j]) m"
  proof -
    have "(map int (jobs_on M done m) @ replicate (length (model_jobs M) - length (map int (jobs_on M done m))) (- 2))
            [length (map int (jobs_on M done m)) := int j]
          = (map int (jobs_on M done m) @ [int j]) @
             replicate (length (model_jobs M) - length (map int (jobs_on M done m) @ [int j])) (- 2)"
      by (rule update_filled_row) (use clt in simp)
    then show ?thesis
      using Some by (simp add: rowm row_of_def jobs_on_snoc)
  qed
  have rows: "?a = map (row_of M (done @ [j])) [0..<k]"
  proof (rule nth_equalityI)
    show "length ?a = length (map (row_of M (done @ [j])) [0..<k])" using jo by simp
  next
    fix i assume "i < length ?a"
    then have ik: "i < k" using jo by simp
    show "?a ! i = map (row_of M (done @ [j])) [0..<k] ! i"
    proof (cases "i = m")
      case True
      then show ?thesis using ik jo newrow by simp
    next
      case False
      then have "jobs_on M (done @ [j]) i = jobs_on M done i"
        using Some by (simp add: jobs_on_snoc)
      then show ?thesis using False ik jo by (simp add: row_of_def)
    qed
  qed
  have counts: "\<forall>m'<k. jobs_assigned_on_machine ?s' m' = Some (length (jobs_on M (done @ [j]) m'))"
    using cnt Some by (simp add: jobs_on_snoc)
  show ?thesis
    using run rows counts by simp
qed

lemma get_schedule_jobs_run:
  assumes "model_machines M = [0..<k]"
    and "job_order s = map (row_of M done) [0..<k]"
    and "\<forall>m<k. jobs_assigned_on_machine s m = Some (length (jobs_on M done m))"
    and "length done + length js \<le> length (model_jobs M)"
  shows "\<exists>s'. get_schedule_jobs M js s = Inr s' \<and>
           job_order s' = map (row_of M (done @ js)) [0..<k] \<and>
           printed s' = printed s @
             concat (map (\<lambda>j. replicate (length (matching_machines M j) - 1) multiple_machines) js)"
  using assms
proof (induction js arbitrary: "done" s)
  case Nil
  then show ?case by simp
next
  case (Cons j js)
  from Cons.prems(4) have len: "length done < length (model_jobs M)" by simp
  from get_schedule_machines_step [OF Cons.prems(1) Cons.prems(2) Cons.prems(3) len, of j]
  obtain s1 where s1: "get_schedule_machines M j (model_machines M) False s = Inr s1"
    and jo1: "job_order s1 = map (row_of M (done @ [j])) [0..<k]"
    and cnt1: "\<forall>m<k. jobs_assigned_on_machine s1 m = Some (length (jobs_on M (done @ [j]) m))"
    and pr1: "printed s1 = printed s @ replicate (length (matching_machines M j) - 1) multiple_machines"
    by blast
  have len1: "length (done @ [j]) + length js \<le> length (model_jobs M)"
    using Cons.prems(4) by simp
  from Cons.IH [OF Cons.prems(1) jo1 cnt1 len1]
  obtain s' where "get_schedule_jobs M js s1 = Inr s'"
    and "job_order s' = map (row_of M ((done @ [j]) @ js)) [0..<k]"
    and "printed s' = printed s1 @
             concat (map (\<lambda>j. replicate (length (matching_machines M j) - 1) multiple_machines) js)"
    by blast
  then show ?case using s1 pr1 by simp
qed

lemma initial_extraction_rows:
  "model_machines M = [0..<k] \<Longrightarrow>
   job_order (initial_extraction M) = map (row_of M []) [0..<k]"
  by (rule nth_equalityI) (simp_all add: initial_extraction_def row_of_def jobs_on_def)

lemma get_schedule_result:
  assumes ms: "model_machines M = [0..<k]"
    and srt: "sorted_jobs M = Inr js"
  shows "get_schedule M =
           Inr (concat (map (\<lambda>j. replicate (length (matching_machines M j) - 1) multiple_machines) js),
                map (row_of M js) [0..<k])"
proof -
  have len: "length js = length (model_jobs M)"
    using srt by (auto simp: sorted_jobs_def split: if_splits)
  have cnt: "\<forall>m<k. jobs_assigned_on_machine (initial_extraction M) m = Some (length (jobs_on M [] m))"
    using ms by (simp add: initial_extraction_def jobs_on_def)
  have l: "length [] + length js \<le> length (model_jobs M)" using len by simp
  from get_schedule_jobs_run [OF ms initial_extraction_rows [OF ms] cnt l]
  obtain s' where "get_schedule_jobs M js (initial_extraction M) = Inr s'"
    and "job_order s' = map (row_of M js) [0..<k]"
    and "printed s' = concat (map (\<lambda>j. replicate (length (matching_machines M j) - 1) multiple_machines) js)"
    by (auto simp: initial_extraction_def)
  then show ?thesis
    using srt by (simp add: get_schedule_def)
qed

lemma insort_key_index_ties:
  fixes f :: "nat \<Rightarrow> real"
  assumes "sorted_wrt (\<lambda>a b. f a < f b \<or> (f a = f b \<and> a < b)) ys"
    and "\<forall>y\<in>set ys. x < y"
  shows "sorted_wrt (\<lambda>a b. f a < f b \<or> (f a = f b \<and> a < b)) (insort_key f x ys)"
  using assms
proof (induction ys)
  case Nil
  then show ?case by simp
next
  case (Cons y ys)
  show ?case
  proof (cases "f x \<le> f y")
    case True
    have "f x < f z \<or> (f x = f z \<and> x < z)" if "z \<in> set (y # ys)" for z
    proof -
      have "f y \<le> f z" using Cons.prems(1) that by auto
      moreover have "x < z" using Cons.prems(2) that by blast
      ultimately show ?thesis using True by auto
    qed
    then show ?thesis using True Cons.prems(1) by simp
  next
    case False
    then have "sorted_wrt (\<lambda>a b. f a < f b \<or> (f a = f b \<and> a < b)) (insort_key f x ys)"
      using Cons by simp
    then show ?thesis using False Cons.prems(1) by (auto simp: set_insort_key)
  qed
qed

lemma sort_key_index_ties:
  fixes f :: "nat \<Rightarrow> real"
  assumes "sorted_wrt (<) xs"
  shows "sorted_wrt (\<lambda>a b. f a < f b \<or> (f a = f b \<and> a < b)) (sort_key f xs)"
  using assms
proof (induction xs)
  case Nil
  then show ?case by simp
next
  case (Cons x xs)
  then have "sorted_wrt (\<lambda>a b. f a < f b \<or> (f a = f b \<and> a < b)) (sort_key f xs)"
    and "\<forall>y\<in>set (sort_key f xs). x < y"
    by auto
  then show ?case
    by (simp add: insort_key_index_ties)
qed

lemma sorted_jobs_defined:
  "list_all (\<lambda>j. value M (var_t j) \<noteq> None) (model_jobs M) \<Longrightarrow>
   sorted_jobs M = Inr (sort_key (job_start_time M) (model_jobs M))"
  by (auto simp: sorted_jobs_def list_all_iff)

lemma count_list_filter:
  "count_list (filter P xs) x = (if P x then count_list xs x else 0)"
  by (induction xs) auto

lemma count_list_distinct:
  "distinct xs \<Longrightarrow> count_list xs x = (if x \<in> set xs then 1 else 0)"
  by (induction xs) auto

lemma find_hd_filter:
  "filter P xs \<noteq> [] \<Longrightarrow> find P xs = Some (hd (filter P xs))"
  by (induction xs) auto

lemma count_list_row_of:
  assumes "distinct js" and "j \<in> set js"
  shows "count_list (row_of M js m) (int j) = (if assigned_machine M j = Some m then 1 else 0)"
proof -
  have "count_list (map int (jobs_on M js m)) (int j) = count_list (jobs_on M js m) j"
    by (rule count_list_map_conv) simp
  moreover have "count_list (replicate r (- 2)) (int j) = 0" for r
    by (rule count_notin) auto
  ultimately show ?thesis
    using assms by (simp add: row_of_def jobs_on_def count_list_filter count_list_distinct)
qed

lemma count_list_printed:
  "j \<in> set js \<Longrightarrow> g j \<le> count_list (concat (map (\<lambda>j. replicate (g j) a) js)) a"
proof (induction js)
  case Nil
  then show ?case by simp
next
  case (Cons i js)
  have r: "count_list (replicate r a) a = r" for r by (induction r) auto
  show ?case
  proof (cases "j = i")
    case True
    then show ?thesis by (simp add: r)
  next
    case False
    with Cons show ?thesis by (simp add: r trans_le_add2)
  qed
qed

lemma printed_without:
  "g j = 0 \<Longrightarrow>
   concat (map (\<lambda>j. replicate (g j) a) js) =
   concat (map (\<lambda>j. replicate (g j) a) (filter (\<lambda>i. i \<noteq> j) js))"
  by (induction js) auto

lemma example_index_sets:
  assumes "generate_model example_jssp = Inr M"
  shows "model_jobs (M\<lparr>value := vals\<rparr>) = [0..<3]"
    and "model_machines (M\<lparr>value := vals\<rparr>) = [0..<2]"
    and "model_jobs M = [0, 1, 2]"
    and "model_machines M = [0, 1]"
proof -
  have l: "length (jobs example_jssp) = 3" "length (machines example_jssp) = 2"
    by (simp_all add: example_jssp_def)
  note g = generate_model_Inr(1,2) [OF assms, unfolded l]
  show "model_jobs (M\<lparr>value := vals\<rparr>) = [0..<3]"
    and "model_machines (M\<lparr>value := vals\<rparr>) = [0..<2]"
    using g by simp_all
  show "model_jobs M = [0, 1, 2]" and "model_machines M = [0, 1]"
    unfolding g by (simp_all add: upt_rec)
qed

lemma two_rows: "length rows = 2 \<Longrightarrow> rows = [rows ! 0, rows ! 1]"
  by (cases rows; cases "tl rows") auto

section \<open>Schedule extraction\<close>

text \<open>
  C7. On a solved model (index sets \<open>0..n-1\<close> and \<open>0..k-1\<close>, every start time set)
  extraction does not fail. The jobs are walked in the order \<open>walk\<close>, which holds every
  job index once, by ascending start time and, among equal start times, by ascending
  index. Row \<open>m\<close> of the result lists, in the order of the walk, the jobs whose first
  machine with indicator 1 is \<open>m\<close>, followed by \<open>-2\<close> up to the row's length \<open>n\<close>; the
  start times of the jobs of a row are non-decreasing.
\<close>

theorem extraction_walks_sorted_jobs:
  assumes "model_jobs M = [0..<n]" and "model_machines M = [0..<k]"
    and "list_all (\<lambda>j. value M (var_t j) \<noteq> None) (model_jobs M)"
  shows "\<exists>walk out rows.
           sorted_jobs M = Inr walk \<and>
           get_schedule_jobs M walk (initial_extraction M) \<noteq> Inl IndexError \<and>
           get_schedule M = Inr (out, rows) \<and>
           distinct walk \<and> set walk = {0..<n} \<and>
           sorted_wrt (\<lambda>a b. job_start_time M a < job_start_time M b \<or>
                              (job_start_time M a = job_start_time M b \<and> a < b)) walk \<and>
           length rows = k \<and>
           (\<forall>m<k. rows ! m =
                     map int [j \<leftarrow> walk. assigned_machine M j = Some m] @
                     replicate (n - length [j \<leftarrow> walk. assigned_machine M j = Some m]) (- 2) \<and>
                   sorted (map (job_start_time M) [j \<leftarrow> walk. assigned_machine M j = Some m]))"
proof -
  let ?walk = "sort_key (job_start_time M) (model_jobs M)"
  have w: "sorted_jobs M = Inr ?walk" using assms(3) by (rule sorted_jobs_defined)
  note res = get_schedule_result [OF assms(2) w]
  have run: "get_schedule_jobs M ?walk (initial_extraction M) \<noteq> Inl IndexError"
    using res w by (auto simp: get_schedule_def split: sum.splits)
  have perm: "distinct ?walk \<and> set ?walk = {0..<n}" using assms(1) by simp
  have ties: "sorted_wrt (\<lambda>a b. job_start_time M a < job_start_time M b \<or>
                              (job_start_time M a = job_start_time M b \<and> a < b)) ?walk"
    unfolding assms(1) by (rule sort_key_index_ties) (simp add: sorted_wrt_upt)
  have rows: "map (row_of M ?walk) [0..<k] ! m =
                     map int [j \<leftarrow> ?walk. assigned_machine M j = Some m] @
                     replicate (n - length [j \<leftarrow> ?walk. assigned_machine M j = Some m]) (- 2)"
    if "m < k" for m
    using that assms(1) by (simp add: row_of_def jobs_on_def)
  have srt: "sorted (map (job_start_time M) [j \<leftarrow> ?walk. assigned_machine M j = Some m])" for m
    by (rule sorted_filter) simp
  show ?thesis
    using w run res perm ties rows srt by auto
qed

theorem extraction_walks_sorted_jobs_witness:
  "\<exists>M. generate_model example_jssp = Inr M \<and>
       sorted_jobs (M\<lparr>value := example_values\<rparr>) = Inr [0, 2, 1] \<and>
       (\<exists>out. get_schedule (M\<lparr>value := example_values\<rparr>) = Inr (out, [[0, 1, - 2], [2, - 2, - 2]]))"
proof -
  obtain M where M: "generate_model example_jssp = Inr M"
    using example_generates by blast
  let ?M = "M\<lparr>value := example_values\<rparr>"
  note ix = example_index_sets(1,2) [OF M, of example_values]
  note ex = example_index_sets(3,4) [OF M]
  have st: "list_all (\<lambda>j. value ?M (var_t j) \<noteq> None) (model_jobs ?M)"
    by (simp add: list_all_iff example_values_def ex)
  have sw: "sorted_jobs ?M = Inr [0, 2, 1]"
    by (simp add: sorted_jobs_def ex job_start_time_def example_values_def)
  have am: "assigned_machine ?M 0 = Some 0" "assigned_machine ?M 1 = Some 0"
      "assigned_machine ?M 2 = Some 1"
    by (simp_all add: assigned_machine_def ex example_values_def)
  from extraction_walks_sorted_jobs [OF ix st]
  obtain walk out rows where w: "sorted_jobs ?M = Inr walk"
    and g: "get_schedule ?M = Inr (out, rows)"
    and l: "length rows = 2"
    and r: "\<forall>m<2. rows ! m =
                     map int [j \<leftarrow> walk. assigned_machine ?M j = Some m] @
                     replicate (3 - length [j \<leftarrow> walk. assigned_machine ?M j = Some m]) (- 2)"
    by blast
  from w sw have walk: "walk = [0, 2, 1]" by simp
  have f: "[j \<leftarrow> [0, 2, 1]. assigned_machine ?M j = Some 0] = [0, 1]"
      "[j \<leftarrow> [0, 2, 1]. assigned_machine ?M j = Some 1] = [2]"
    by (simp_all add: am del: One_nat_def)
  have "rows ! 0 = [0, 1, - 2]" "rows ! 1 = [2, - 2, - 2]"
    using r [rule_format, of 0] r [rule_format, of 1] unfolding walk f
    by (simp_all add: numeral_2_eq_2 numeral_3_eq_3)
  with two_rows [OF l] have "rows = [[0, 1, - 2], [2, - 2, - 2]]" by simp
  with g sw M show ?thesis by blast
qed

text \<open>
  C9. On a solved model, when two or more machines show the indicator 1 for job \<open>j\<close>,
  extraction still returns a result; the line \<open>Error: Multiple machines assigned to job\<close>
  is among the printed lines (at least once for each machine of \<open>j\<close> beyond the first);
  and \<open>j\<close> stands exactly once in the row of the first such machine and in no other row.
\<close>

theorem multiple_machines_reported:
  assumes "model_jobs M = [0..<n]" and "model_machines M = [0..<k]"
    and "list_all (\<lambda>j. value M (var_t j) \<noteq> None) (model_jobs M)"
    and "j < n"
    and "2 \<le> length (matching_machines M j)"
  shows "\<exists>out rows.
           get_schedule M = Inr (out, rows) \<and>
           Text ''Error: Multiple machines assigned to job'' \<in> set out \<and>
           length (matching_machines M j) - 1
             \<le> count_list out (Text ''Error: Multiple machines assigned to job'') \<and>
           hd (matching_machines M j) < k \<and>
           (\<forall>m<k. count_list (rows ! m) (int j) = (if m = hd (matching_machines M j) then 1 else 0))"
proof -
  let ?walk = "sort_key (job_start_time M) (model_jobs M)"
  let ?g = "\<lambda>j. length (matching_machines M j) - 1"
  let ?out = "concat (map (\<lambda>j. replicate (?g j) multiple_machines) ?walk)"
  have w: "sorted_jobs M = Inr ?walk" using assms(3) by (rule sorted_jobs_defined)
  note res = get_schedule_result [OF assms(2) w]
  have jw: "j \<in> set ?walk" and dw: "distinct ?walk" using assms(1,4) by simp_all
  have cnt: "?g j \<le> count_list ?out multiple_machines"
    using jw by (rule count_list_printed)
  then have "0 < count_list ?out multiple_machines" using assms(5) by simp
  then have mem: "multiple_machines \<in> set ?out"
    using count_list_0_iff [of ?out multiple_machines] by auto
  have ne: "matching_machines M j \<noteq> []" using assms(5) by auto
  then have am: "assigned_machine M j = Some (hd (matching_machines M j))"
    unfolding matching_machines_def assigned_machine_def by (rule find_hd_filter)
  then have hk: "hd (matching_machines M j) < k"
    using assigned_machine_in_range [of M j] assms(2) by simp
  have rows: "count_list (map (row_of M ?walk) [0..<k] ! m) (int j) =
      (if m = hd (matching_machines M j) then 1 else 0)" if "m < k" for m
    using that count_list_row_of [OF dw jw, of M m] am by auto
  show ?thesis
    using res cnt mem hk rows unfolding multiple_machines_def by auto
qed

theorem multiple_machines_reported_witness:
  "\<exists>M. generate_model example_jssp = Inr M \<and>
       matching_machines (M\<lparr>value := inconsistent_values\<rparr>) 1 = [0, 1] \<and>
       (\<exists>out rows. get_schedule (M\<lparr>value := inconsistent_values\<rparr>) = Inr (out, rows) \<and>
          Text ''Error: Multiple machines assigned to job'' \<in> set out \<and>
          count_list (rows ! 0) 1 = 1 \<and> count_list (rows ! 1) 1 = 0)"
proof -
  obtain M where M: "generate_model example_jssp = Inr M"
    using example_generates by blast
  let ?M = "M\<lparr>value := inconsistent_values\<rparr>"
  note ix = example_index_sets(1,2) [OF M, of inconsistent_values]
  note ex = example_index_sets(3,4) [OF M]
  have st: "list_all (\<lambda>j. value ?M (var_t j) \<noteq> None) (model_jobs ?M)"
    by (simp add: list_all_iff inconsistent_values_def example_values_def ex)
  have mm: "matching_machines ?M 1 = [0, 1]"
    by (simp add: matching_machines_def ex inconsistent_values_def example_values_def)
  have j: "(1::nat) < 3" by simp
  have two: "2 \<le> length (matching_machines ?M 1)" unfolding mm by simp
  from multiple_machines_reported [OF ix st j two]
  obtain out rows where g: "get_schedule ?M = Inr (out, rows)"
    and p: "Text ''Error: Multiple machines assigned to job'' \<in> set out"
    and c: "\<forall>m<2. count_list (rows ! m) (int 1) = (if m = hd (matching_machines ?M 1) then 1 else 0)"
    by blast
  from c [rule_format, of 0, unfolded mm] c [rule_format, of 1, unfolded mm]
  have "count_list (rows ! 0) 1 = 1" "count_list (rows ! 1) 1 = 0"
    by simp_all
  with g p mm M show ?thesis by blast
qed

text \<open>
  C10. On a solved model, when no machine shows an indicator exactly equal to 1 for job
  \<open>j\<close>, the inner loop for \<open>j\<close> leaves the state as it found it (no slot written, no
  counter moved, no line printed); the result of the extraction is the one obtained
  from the other jobs alone: its printed lines are theirs, \<open>j\<close> stands in no row, and
  every row holds the other jobs placed on it followed by \<open>-2\<close>.
\<close>

theorem unmatched_job_is_omitted:
  assumes "model_jobs M = [0..<n]" and "model_machines M = [0..<k]"
    and "list_all (\<lambda>j. value M (var_t j) \<noteq> None) (model_jobs M)"
    and "matching_machines M j = []"
  shows "(\<forall>s. get_schedule_machines M j (model_machines M) False s = Inr s) \<and>
         (\<exists>walk out rows.
            sorted_jobs M = Inr walk \<and>
            get_schedule M = Inr (out, rows) \<and>
            out = concat (map (\<lambda>i. replicate (length (matching_machines M i) - 1) multiple_machines)
                       [i \<leftarrow> walk. i \<noteq> j]) \<and>
            length rows = k \<and>
            (\<forall>m<k. int j \<notin> set (rows ! m) \<and>
                    rows ! m =
                      map int [i \<leftarrow> walk. i \<noteq> j \<and> assigned_machine M i = Some m] @
                      replicate (n - length [i \<leftarrow> walk. i \<noteq> j \<and> assigned_machine M i = Some m]) (- 2)))"
proof -
  let ?walk = "sort_key (job_start_time M) (model_jobs M)"
  have none: "assigned_machine M j = None"
    using assms(4) unfolding matching_machines_def assigned_machine_def
    by (simp add: find_None_iff filter_empty_conv)
  have inner: "get_schedule_machines M j (model_machines M) False s = Inr s" for s
    using none unfolding assigned_machine_def by (simp add: machines_not_found)
  have w: "sorted_jobs M = Inr ?walk" using assms(3) by (rule sorted_jobs_defined)
  note res = get_schedule_result [OF assms(2) w]
  have out: "concat (map (\<lambda>i. replicate (length (matching_machines M i) - 1) multiple_machines) ?walk) =
    concat (map (\<lambda>i. replicate (length (matching_machines M i) - 1) multiple_machines)
       [i \<leftarrow> ?walk. i \<noteq> j])"
    by (rule printed_without) (simp add: assms(4))
  have flt: "[i \<leftarrow> ?walk. assigned_machine M i = Some m] =
             [i \<leftarrow> ?walk. i \<noteq> j \<and> assigned_machine M i = Some m]" for m
    by (rule filter_cong) (use none in auto)
  have rows: "int j \<notin> set (map (row_of M ?walk) [0..<k] ! m) \<and>
      map (row_of M ?walk) [0..<k] ! m =
         map int [i \<leftarrow> ?walk. i \<noteq> j \<and> assigned_machine M i = Some m] @
         replicate (n - length [i \<leftarrow> ?walk. i \<noteq> j \<and> assigned_machine M i = Some m]) (- 2)"
    if "m < k" for m
  proof -
    have "row_of M ?walk m = map int [i \<leftarrow> ?walk. i \<noteq> j \<and> assigned_machine M i = Some m] @
         replicate (n - length [i \<leftarrow> ?walk. i \<noteq> j \<and> assigned_machine M i = Some m]) (- 2)"
      unfolding row_of_def jobs_on_def flt using assms(1) by simp
    moreover have "int j \<notin> set (row_of M ?walk m)"
      using none by (auto simp: row_of_def jobs_on_def)
    ultimately show ?thesis using that by simp
  qed
  show ?thesis
    using inner w res out rows by auto
qed

theorem unmatched_job_is_omitted_witness:
  "\<exists>M. generate_model example_jssp = Inr M \<and>
       value (M\<lparr>value := relaxed_values\<rparr>) (var_alpha 2 1) = Some (999 / 1000) \<and>
       matching_machines (M\<lparr>value := relaxed_values\<rparr>) 2 = [] \<and>
       get_schedule (M\<lparr>value := relaxed_values\<rparr>) = Inr ([], [[0, 1, - 2], [- 2, - 2, - 2]])"
proof -
  obtain M where M: "generate_model example_jssp = Inr M"
    using example_generates by blast
  let ?M = "M\<lparr>value := relaxed_values\<rparr>"
  note ix = example_index_sets(1,2) [OF M, of relaxed_values]
  note ex = example_index_sets(3,4) [OF M]
  have st: "list_all (\<lambda>j. value ?M (var_t j) \<noteq> None) (model_jobs ?M)"
    by (simp add: list_all_iff relaxed_values_def example_values_def ex)
  have v: "value ?M (var_alpha 2 1) = Some (999 / 1000)"
    by (simp add: relaxed_values_def)
  have mm: "matching_machines ?M 2 = []" "length (matching_machines ?M 0) = 1"
      "length (matching_machines ?M 1) = 1"
    by (simp_all add: matching_machines_def ex relaxed_values_def example_values_def)
  have sw: "sorted_jobs ?M = Inr [0, 2, 1]"
    by (simp add: sorted_jobs_def ex job_start_time_def relaxed_values_def example_values_def)
  have am: "assigned_machine ?M 0 = Some 0" "assigned_machine ?M 1 = Some 0"
    by (simp_all add: assigned_machine_def ex relaxed_values_def example_values_def)
  from unmatched_job_is_omitted [OF ix st mm(1)]
  obtain walk out rows where w: "sorted_jobs ?M = Inr walk"
    and g: "get_schedule ?M = Inr (out, rows)"
    and o: "out = concat (map (\<lambda>i. replicate (length (matching_machines ?M i) - 1) multiple_machines)
                       [i \<leftarrow> walk. i \<noteq> 2])"
    and l: "length rows = 2"
    and r: "\<forall>m<2. int 2 \<notin> set (rows ! m) \<and>
                    rows ! m =
                      map int [i \<leftarrow> walk. i \<noteq> 2 \<and> assigned_machine ?M i = Some m] @
                      replicate (3 - length [i \<leftarrow> walk. i \<noteq> 2 \<and> assigned_machine ?M i = Some m]) (- 2)"
    by blast
  from w sw have walk: "walk = [0, 2, 1]" by simp
  have f: "[i \<leftarrow> [0, 2, 1]. i \<noteq> 2 \<and> assigned_machine ?M i = Some 0] = [0, 1]"
      "[i \<leftarrow> [0, 2, 1]. i \<noteq> 2 \<and> assigned_machine ?M i = Some 1] = []"
      "[i \<leftarrow> [0, 2, 1]. i \<noteq> 2] = [0, 1 :: nat]"
    by (simp_all add: am del: One_nat_def)
  have "rows ! 0 = [0, 1, - 2]" "rows ! 1 = [- 2, - 2, - 2]"
    using r [rule_format, of 0] r [rule_format, of 1] unfolding walk f
    by (simp_all add: numeral_2_eq_2 numeral_3_eq_3)
  with two_rows [OF l] have "rows = [[0, 1, - 2], [- 2, - 2, - 2]]" by simp
  moreover have out: "out = []" unfolding o walk f by (simp add: mm del: One_nat_def)
  moreover note g v mm(1) M
  ultimately show ?thesis by blast
qed

section \<open>Solving\<close>

text \<open>
  C6. \<open>solve_model\<close> raises \<open>Solver not ok\<close> when the solver's status is not \<open>ok\<close>, raises
  \<open>Infeasible solution\<close> when the status is \<open>ok\<close> and the termination condition is not
  \<open>optimal\<close>, and otherwise returns the model it was given, with the values the solver
  left in its variables; it returns a model in no other case.
\<close>

theorem solve_model_outcome:
  assumes "solver m = (res, vals)"
  shows "(status res \<noteq> ok \<longrightarrow>
            solve_model solver m = ([Text ''Check solver not ok...''], Inl (Exception ''Solver not ok''))) \<and>
         (status res = ok \<and> termination_condition res \<noteq> optimal \<longrightarrow>
            solve_model solver m =
              ([Text ''Could not find optimal solution, probably infeasible...''],
               Inl (Exception ''Infeasible solution''))) \<and>
         (status res = ok \<and> termination_condition res = optimal \<longrightarrow>
            solve_model solver m = ([], Inr (m\<lparr>value := vals\<rparr>))) \<and>
         ((\<exists>m'. snd (solve_model solver m) = Inr m') \<longleftrightarrow>
            status res = ok \<and> termination_condition res = optimal)"
  using assms by (auto simp: solve_model_def)

theorem solve_model_outcome_witness:
  "\<exists>M. generate_model example_jssp = Inr M \<and>
       solve_model example_solver M = ([], Inr (M\<lparr>value := example_values\<rparr>)) \<and>
       solve_model infeasible_solver M =
         ([Text ''Check solver not ok...''], Inl (Exception ''Solver not ok'')) \<and>
       solve_model time_limit_solver M =
         ([Text ''Could not find optimal solution, probably infeasible...''],
          Inl (Exception ''Infeasible solution''))"
proof -
  obtain M where M: "generate_model example_jssp = Inr M"
    using example_generates by blast
  have a: "example_solver M = (\<lparr> status = ok, termination_condition = optimal \<rparr>, example_values)"
    by (simp add: example_solver_def)
  have b: "infeasible_solver M = (\<lparr> status = warning, termination_condition = infeasible \<rparr>, value M)"
    by (simp add: infeasible_solver_def)
  have c: "time_limit_solver M = (\<lparr> status = ok, termination_condition = maxTimeLimit \<rparr>, example_values)"
    by (simp add: time_limit_solver_def)
  from solve_model_outcome [of example_solver M, OF a]
    solve_model_outcome [of infeasible_solver M, OF b]
    solve_model_outcome [of time_limit_solver M, OF c] M
  show ?thesis by simp
qed

section \<open>Schedule validation\<close>

lemma ball_triples:
  "(\<forall>(a, b, c) \<in> set xs. P a b c) \<longleftrightarrow> (\<forall>a b c. (a, b, c) \<in> set xs \<longrightarrow> P a b c)"
  by auto

lemma validate_schedule_jobs_None_ball:
  "validate_schedule_jobs M machine job_list = Inr None \<longleftrightarrow>
   (\<forall>(job_idx, start_time, end_time) \<in> set job_list.
      job_idx \<noteq> - 1 \<and> job_idx \<noteq> - 2 \<longrightarrow>
      0 \<le> job_idx \<and> nat job_idx \<in> set (model_jobs M) \<and>
      value M (var_t (nat job_idx)) = Some start_time)"
  by (induction M machine job_list rule: validate_schedule_jobs.induct) auto

lemma validate_schedule_jobs_None_iff:
  "validate_schedule_jobs M machine job_list = Inr None \<longleftrightarrow>
   (\<forall>job_idx start_time end_time.
      (job_idx, start_time, end_time) \<in> set job_list \<and> job_idx \<noteq> - 1 \<and> job_idx \<noteq> - 2 \<longrightarrow>
      0 \<le> job_idx \<and> nat job_idx \<in> set (model_jobs M) \<and>
      value M (var_t (nat job_idx)) = Some start_time)"
  unfolding validate_schedule_jobs_None_ball ball_triples by blast

lemma validate_schedule_jobs_Some:
  "validate_schedule_jobs M machine job_list = Inr (Some line) \<Longrightarrow>
   \<exists>job_idx start_time end_time.
      (job_idx, start_time, end_time) \<in> set job_list \<and> job_idx \<noteq> - 1 \<and> job_idx \<noteq> - 2 \<and>
      value M (var_t (nat job_idx)) \<noteq> Some start_time \<and>
      line = Start_time_mismatch job_idx machine (value M (var_t (nat job_idx))) start_time"
proof (induction M machine job_list rule: validate_schedule_jobs.induct)
  case (1 M machine)
  then show ?case by simp
next
  case (2 M machine job_idx start_time end_time rest)
  show ?case
  proof (cases "job_idx = - 1 \<or> job_idx = - 2")
    case True
    with 2 show ?thesis by (simp, blast)
  next
    case False
    show ?thesis
    proof (cases "value M (var_t (nat job_idx)) = Some start_time")
      case True
      with False 2 show ?thesis by (simp split: if_splits, blast)
    next
      case ne: False
      have "line = Start_time_mismatch job_idx machine (value M (var_t (nat job_idx))) start_time"
        using "2.prems" False ne by (simp split: if_splits)
      then show ?thesis
        using False ne
        by (intro exI [of _ job_idx] exI [of _ start_time] exI [of _ end_time]) simp
    qed
  qed
qed

lemma validate_schedule_jobs_no_error_ball:
  "(\<forall>(job_idx, start_time, end_time) \<in> set job_list.
      job_idx \<noteq> - 1 \<and> job_idx \<noteq> - 2 \<longrightarrow> 0 \<le> job_idx \<and> nat job_idx \<in> set (model_jobs M)) \<Longrightarrow>
   \<exists>r. validate_schedule_jobs M machine job_list = Inr r"
  by (induction M machine job_list rule: validate_schedule_jobs.induct) auto

lemma validate_schedule_jobs_no_error:
  assumes "\<forall>job_idx start_time end_time.
      (job_idx, start_time, end_time) \<in> set job_list \<and> job_idx \<noteq> - 1 \<and> job_idx \<noteq> - 2 \<longrightarrow>
      0 \<le> job_idx \<and> nat job_idx \<in> set (model_jobs M)"
  shows "\<exists>r. validate_schedule_jobs M machine job_list = Inr r"
proof (rule validate_schedule_jobs_no_error_ball)
  show "\<forall>(job_idx, start_time, end_time) \<in> set job_list.
      job_idx \<noteq> - 1 \<and> job_idx \<noteq> - 2 \<longrightarrow> 0 \<le> job_idx \<and> nat job_idx \<in> set (model_jobs M)"
    unfolding ball_triples using assms by blast
qed

lemma validate_schedule_True_iff:
  "validate_schedule M sched = Inr ([], True) \<longleftrightarrow>
      (\<forall>machine job_list job_idx start_time end_time.
          (machine, job_list) \<in> set sched \<and> (job_idx, start_time, end_time) \<in> set job_list \<and>
          job_idx \<noteq> - 1 \<and> job_idx \<noteq> - 2 \<longrightarrow>
          0 \<le> job_idx \<and> nat job_idx \<in> set (model_jobs M) \<and>
          value M (var_t (nat job_idx)) = Some start_time)"
proof (induction sched)
  case Nil
  then show ?case by simp
next
  case (Cons item sched)
  obtain machine job_list where item: "item = (machine, job_list)" by (cases item)
  show ?case
  proof (cases "validate_schedule_jobs M machine job_list = Inr None")
    case True
    then have run: "validate_schedule M (item # sched) = validate_schedule M sched"
      using item by simp
    from True have ok: "\<forall>job_idx start_time end_time.
        (job_idx, start_time, end_time) \<in> set job_list \<and> job_idx \<noteq> - 1 \<and> job_idx \<noteq> - 2 \<longrightarrow>
        0 \<le> job_idx \<and> nat job_idx \<in> set (model_jobs M) \<and>
        value M (var_t (nat job_idx)) = Some start_time"
      unfolding validate_schedule_jobs_None_iff .
    have "validate_schedule M (item # sched) = Inr ([], True) \<longleftrightarrow>
      (\<forall>machine job_list job_idx start_time end_time.
          (machine, job_list) \<in> set sched \<and> (job_idx, start_time, end_time) \<in> set job_list \<and>
          job_idx \<noteq> - 1 \<and> job_idx \<noteq> - 2 \<longrightarrow>
          0 \<le> job_idx \<and> nat job_idx \<in> set (model_jobs M) \<and>
          value M (var_t (nat job_idx)) = Some start_time)"
      unfolding run by (rule Cons)
    also have "\<dots> \<longleftrightarrow>
      (\<forall>machine job_list job_idx start_time end_time.
          (machine, job_list) \<in> set (item # sched) \<and> (job_idx, start_time, end_time) \<in> set job_list \<and>
          job_idx \<noteq> - 1 \<and> job_idx \<noteq> - 2 \<longrightarrow>
          0 \<le> job_idx \<and> nat job_idx \<in> set (model_jobs M) \<and>
          value M (var_t (nat job_idx)) = Some start_time)"
      using ok unfolding item by (simp, blast)
    finally show ?thesis .
  next
    case False
    then have "validate_schedule M (item # sched) \<noteq> Inr ([], True)"
      using item by (auto split: sum.splits option.splits)
    moreover have "\<not> (\<forall>machine job_list job_idx start_time end_time.
          (machine, job_list) \<in> set (item # sched) \<and> (job_idx, start_time, end_time) \<in> set job_list \<and>
          job_idx \<noteq> - 1 \<and> job_idx \<noteq> - 2 \<longrightarrow>
          0 \<le> job_idx \<and> nat job_idx \<in> set (model_jobs M) \<and>
          value M (var_t (nat job_idx)) = Some start_time)"
    proof
      assume a: "\<forall>machine job_list job_idx start_time end_time.
          (machine, job_list) \<in> set (item # sched) \<and> (job_idx, start_time, end_time) \<in> set job_list \<and>
          job_idx \<noteq> - 1 \<and> job_idx \<noteq> - 2 \<longrightarrow>
          0 \<le> job_idx \<and> nat job_idx \<in> set (model_jobs M) \<and>
          value M (var_t (nat job_idx)) = Some start_time"
      have "(machine, job_list) \<in> set (item # sched)" by (simp add: item)
      with a have "\<forall>job_idx start_time end_time.
          (job_idx, start_time, end_time) \<in> set job_list \<and> job_idx \<noteq> - 1 \<and> job_idx \<noteq> - 2 \<longrightarrow>
          0 \<le> job_idx \<and> nat job_idx \<in> set (model_jobs M) \<and>
          value M (var_t (nat job_idx)) = Some start_time"
        by blast
      with False show False unfolding validate_schedule_jobs_None_iff by blast
    qed
    ultimately show ?thesis by blast
  qed
qed

lemma validate_schedule_True_silent:
  "validate_schedule M sched = Inr (out, True) \<Longrightarrow> out = []"
  by (induction sched) (auto split: sum.splits option.splits)

lemma validate_schedule_False_line:
  "validate_schedule M sched = Inr (out, False) \<Longrightarrow>
   \<exists>machine job_list job_idx start_time end_time.
      (machine, job_list) \<in> set sched \<and> (job_idx, start_time, end_time) \<in> set job_list \<and>
      job_idx \<noteq> - 1 \<and> job_idx \<noteq> - 2 \<and>
      value M (var_t (nat job_idx)) \<noteq> Some start_time \<and>
      out = [Start_time_mismatch job_idx machine (value M (var_t (nat job_idx))) start_time]"
proof (induction sched)
  case Nil
  then show ?case by simp
next
  case (Cons item sched)
  obtain machine job_list where item: "item = (machine, job_list)" by (cases item)
  show ?case
  proof (cases "validate_schedule_jobs M machine job_list")
    case (Inl e)
    with Cons.prems item show ?thesis by simp
  next
    case (Inr r)
    show ?thesis
    proof (cases r)
      case None
      with Inr Cons.prems item have "validate_schedule M sched = Inr (out, False)" by simp
      from Cons.IH [OF this] show ?thesis by (simp, blast)
    next
      case (Some line)
      with Inr Cons.prems item have out: "out = [line]" by simp
      from Inr Some validate_schedule_jobs_Some [of M machine job_list line]
      show ?thesis unfolding out item by (simp, blast)
    qed
  qed
qed

lemma validate_schedule_no_error:
  "(\<forall>machine job_list job_idx start_time end_time.
      (machine, job_list) \<in> set sched \<and> (job_idx, start_time, end_time) \<in> set job_list \<and>
      job_idx \<noteq> - 1 \<and> job_idx \<noteq> - 2 \<longrightarrow>
      0 \<le> job_idx \<and> nat job_idx \<in> set (model_jobs M)) \<Longrightarrow>
   \<exists>out verdict. validate_schedule M sched = Inr (out, verdict)"
proof (induction sched)
  case Nil
  then show ?case by auto
next
  case (Cons item sched)
  obtain machine job_list where item: "item = (machine, job_list)" by (cases item)
  have "\<forall>job_idx start_time end_time.
      (job_idx, start_time, end_time) \<in> set job_list \<and> job_idx \<noteq> - 1 \<and> job_idx \<noteq> - 2 \<longrightarrow>
      0 \<le> job_idx \<and> nat job_idx \<in> set (model_jobs M)"
  proof -
    have "(machine, job_list) \<in> set (item # sched)" by (simp add: item)
    with Cons.prems show ?thesis by blast
  qed
  from validate_schedule_jobs_no_error [OF this, of machine]
  obtain r where r: "validate_schedule_jobs M machine job_list = Inr r" by blast
  have "\<exists>out verdict. validate_schedule M sched = Inr (out, verdict)"
  proof (rule Cons.IH)
    have "set sched \<subseteq> set (item # sched)" by auto
    with Cons.prems show "\<forall>machine job_list job_idx start_time end_time.
      (machine, job_list) \<in> set sched \<and> (job_idx, start_time, end_time) \<in> set job_list \<and>
      job_idx \<noteq> - 1 \<and> job_idx \<noteq> - 2 \<longrightarrow>
      0 \<le> job_idx \<and> nat job_idx \<in> set (model_jobs M)"
      by blast
  qed
  then show ?case
    using r item by (cases r) auto
qed

text \<open>
  C8, as the code has it. \<open>validate_schedule\<close> returns \<open>True\<close> (printing nothing) exactly
  when every entry of the schedule whose job index is neither \<open>-1\<close> nor \<open>-2\<close> names a job
  of the model and records a start time equal to the value of that job's start-time
  variable, the two numbers being compared for equality as they are; a verdict \<open>False\<close>
  comes with one printed line that names the job, the machine, the variable's value
  and the recorded start time of an entry where the two differ; when every such entry
  names a job of the model, a verdict is returned, and it is \<open>False\<close> with its line as
  soon as one entry differs.
\<close>

theorem validate_schedule_exact_equality:
  "(validate_schedule M sched = Inr ([], True) \<longleftrightarrow>
      (\<forall>machine job_list job_idx start_time end_time.
          (machine, job_list) \<in> set sched \<and> (job_idx, start_time, end_time) \<in> set job_list \<and>
          job_idx \<noteq> - 1 \<and> job_idx \<noteq> - 2 \<longrightarrow>
          0 \<le> job_idx \<and> nat job_idx \<in> set (model_jobs M) \<and>
          value M (var_t (nat job_idx)) = Some start_time)) \<and>
   (\<forall>out. validate_schedule M sched = Inr (out, True) \<longrightarrow> out = []) \<and>
   (\<forall>out. validate_schedule M sched = Inr (out, False) \<longrightarrow>
      (\<exists>machine job_list job_idx start_time end_time.
          (machine, job_list) \<in> set sched \<and> (job_idx, start_time, end_time) \<in> set job_list \<and>
          job_idx \<noteq> - 1 \<and> job_idx \<noteq> - 2 \<and>
          value M (var_t (nat job_idx)) \<noteq> Some start_time \<and>
          out = [Start_time_mismatch job_idx machine (value M (var_t (nat job_idx))) start_time])) \<and>
   ((\<forall>machine job_list job_idx start_time end_time.
          (machine, job_list) \<in> set sched \<and> (job_idx, start_time, end_time) \<in> set job_list \<and>
          job_idx \<noteq> - 1 \<and> job_idx \<noteq> - 2 \<longrightarrow>
          0 \<le> job_idx \<and> nat job_idx \<in> set (model_jobs M)) \<longrightarrow>
      (\<exists>out verdict. validate_schedule M sched = Inr (out, verdict)) \<and>
      ((\<exists>machine job_list job_idx start_time end_time.
          (machine, job_list) \<in> set sched \<and> (job_idx, start_time, end_time) \<in> set job_list \<and>
          job_idx \<noteq> - 1 \<and> job_idx \<noteq> - 2 \<and>
          value M (var_t (nat job_idx)) \<noteq> Some start_time) \<longrightarrow>
       (\<exists>line. validate_schedule M sched = Inr ([line], False))))"
proof -
  note a = validate_schedule_True_iff [of M sched]
  note b = validate_schedule_True_silent [of M sched]
  note c = validate_schedule_False_line [of M sched]
  note d = validate_schedule_no_error [of sched M]
  have e: "\<exists>line. validate_schedule M sched = Inr ([line], False)"
    if valid: "\<forall>machine job_list job_idx start_time end_time.
          (machine, job_list) \<in> set sched \<and> (job_idx, start_time, end_time) \<in> set job_list \<and>
          job_idx \<noteq> - 1 \<and> job_idx \<noteq> - 2 \<longrightarrow>
          0 \<le> job_idx \<and> nat job_idx \<in> set (model_jobs M)"
      and bad: "\<exists>machine job_list job_idx start_time end_time.
          (machine, job_list) \<in> set sched \<and> (job_idx, start_time, end_time) \<in> set job_list \<and>
          job_idx \<noteq> - 1 \<and> job_idx \<noteq> - 2 \<and>
          value M (var_t (nat job_idx)) \<noteq> Some start_time"
  proof -
    from d [OF valid] obtain out verdict where r: "validate_schedule M sched = Inr (out, verdict)"
      by blast
    have "\<not> verdict"
    proof
      assume verdict
      with r b have "validate_schedule M sched = Inr ([], True)" by simp
      with a bad show False by blast
    qed
    with r have r': "validate_schedule M sched = Inr (out, False)" by simp
    from c [OF r'] obtain line where "out = [line]" by blast
    with r' show ?thesis by blast
  qed
  from a b c d e show ?thesis by blast
qed

theorem validate_schedule_exact_equality_witness:
  "\<exists>M. generate_model example_jssp = Inr M \<and>
       validate_schedule (M\<lparr>value := example_values\<rparr>) example_schedule = Inr ([], True) \<and>
       validate_schedule (M\<lparr>value := example_values\<rparr>) late_schedule =
         Inr ([Start_time_mismatch 1 0 (Some 12) 13], False)"
proof -
  obtain M where M: "generate_model example_jssp = Inr M"
    using example_generates by blast
  let ?M = "M\<lparr>value := example_values\<rparr>"
  note ix = example_index_sets(1,2) [OF M, of example_values]
  note th = validate_schedule_exact_equality [of ?M example_schedule]
  note th' = validate_schedule_exact_equality [of ?M late_schedule]
  have "\<forall>machine job_list job_idx start_time end_time.
          (machine, job_list) \<in> set example_schedule \<and> (job_idx, start_time, end_time) \<in> set job_list \<and>
          job_idx \<noteq> - 1 \<and> job_idx \<noteq> - 2 \<longrightarrow>
          0 \<le> job_idx \<and> nat job_idx \<in> set (model_jobs ?M) \<and>
          value ?M (var_t (nat job_idx)) = Some start_time"
    unfolding ix by (auto simp: example_schedule_def example_values_def)
  with th have good: "validate_schedule ?M example_schedule = Inr ([], True)" by blast
  have valid: "\<forall>machine job_list job_idx start_time end_time.
          (machine, job_list) \<in> set late_schedule \<and> (job_idx, start_time, end_time) \<in> set job_list \<and>
          job_idx \<noteq> - 1 \<and> job_idx \<noteq> - 2 \<longrightarrow>
          0 \<le> job_idx \<and> nat job_idx \<in> set (model_jobs ?M)"
    unfolding ix by (auto simp: late_schedule_def)
  have bad: "\<exists>machine job_list job_idx start_time end_time.
          (machine, job_list) \<in> set late_schedule \<and> (job_idx, start_time, end_time) \<in> set job_list \<and>
          job_idx \<noteq> - 1 \<and> job_idx \<noteq> - 2 \<and>
          value ?M (var_t (nat job_idx)) \<noteq> Some start_time"
    by (intro exI [of _ 0] exI [of _ "[(0, 0, 10), (1, 13, 18), (- 2, 0, 0)]"]
          exI [of _ 1] exI [of _ 13] exI [of _ 18])
       (simp add: late_schedule_def example_values_def)
  from th' valid bad obtain line where
    r: "validate_schedule ?M late_schedule = Inr ([line], False)" by blast
  with th' obtain machine job_list job_idx start_time end_time where
    e: "(machine, job_list) \<in> set late_schedule" "(job_idx, start_time, end_time) \<in> set job_list"
      "job_idx \<noteq> - 1" "job_idx \<noteq> - 2" "value ?M (var_t (nat job_idx)) \<noteq> Some start_time"
      "[line] = [Start_time_mismatch job_idx machine (value ?M (var_t (nat job_idx))) start_time]"
    by blast
  from e(1) have m: "machine = 0" "job_list = [(0, 0, 10), (1, 13, 18), (- 2, 0, 0)]"
    by (simp_all add: late_schedule_def)
  from e(2-5) have "job_idx = 1 \<and> start_time = 13"
    unfolding m by (auto simp: example_values_def)
  with e(6) m have "line = Start_time_mismatch 1 0 (Some 12) 13"
    by (simp add: example_values_def)
  with r good M show ?thesis by blast
qed

text \<open>
  C8, as the claim states it (a comparison within a tolerance), fails: a recorded start
  time that differs from the variable's value by one part in \<open>10 ^ 9\<close> is reported as a
  mismatch.
\<close>

theorem validate_schedule_tolerance_counterexample:
  "validate_schedule single_job_model [(0, [(0, 10 + 1 / 10 ^ 9, 20)])] =
     Inr ([Start_time_mismatch 0 0 (Some 10) (10 + 1 / 10 ^ 9)], False) \<and>
   \<bar>(10 + 1 / 10 ^ 9) - 10\<bar> \<le> (1 / 10 ^ 6 :: real)"
  by (simp add: single_job_model_def)

end
